theory Spec2Isabelle
  imports Main
begin

text \<open>
  A model of \<open>main.py\<close>, the command-line notebook: the classes \<open>Note\<close>,
  \<open>Notebook\<close> and \<open>CommandProcessor\<close> and the interactive loop, as functions on
  an explicit state of the process and its environment. An exception is a result
  value, and the state at the moment it is raised is kept.
\<close>

section \<open>Strings\<close>

text \<open>
  A \<^typ>\<open>char\<close> is a code point below 256, so a \<^typ>\<open>string\<close> is a Python string
  over the Latin-1 range. On this range \<open>str.lower()\<close> works character by character:
  it maps \<open>A\<close>..\<open>Z\<close> to \<open>a\<close>..\<open>z\<close> and the letters 0xC0..0xDE, the multiplication
  sign 0xD7 apart, to the code point 32 higher, and leaves every other character
  alone.
\<close>

definition ascii_uppercase :: string where
  "ascii_uppercase = ''ABCDEFGHIJKLMNOPQRSTUVWXYZ''"

definition ascii_lowercase :: string where
  "ascii_lowercase = ''abcdefghijklmnopqrstuvwxyz''"

definition latin1_uppercase :: string where
  "latin1_uppercase =
     [CHR 0xC0, CHR 0xC1, CHR 0xC2, CHR 0xC3, CHR 0xC4, CHR 0xC5,
      CHR 0xC6, CHR 0xC7, CHR 0xC8, CHR 0xC9, CHR 0xCA, CHR 0xCB,
      CHR 0xCC, CHR 0xCD, CHR 0xCE, CHR 0xCF, CHR 0xD0, CHR 0xD1,
      CHR 0xD2, CHR 0xD3, CHR 0xD4, CHR 0xD5, CHR 0xD6, CHR 0xD8,
      CHR 0xD9, CHR 0xDA, CHR 0xDB, CHR 0xDC, CHR 0xDD, CHR 0xDE]"

definition latin1_lowercase :: string where
  "latin1_lowercase =
     [CHR 0xE0, CHR 0xE1, CHR 0xE2, CHR 0xE3, CHR 0xE4, CHR 0xE5,
      CHR 0xE6, CHR 0xE7, CHR 0xE8, CHR 0xE9, CHR 0xEA, CHR 0xEB,
      CHR 0xEC, CHR 0xED, CHR 0xEE, CHR 0xEF, CHR 0xF0, CHR 0xF1,
      CHR 0xF2, CHR 0xF3, CHR 0xF4, CHR 0xF5, CHR 0xF6, CHR 0xF8,
      CHR 0xF9, CHR 0xFA, CHR 0xFB, CHR 0xFC, CHR 0xFD, CHR 0xFE]"

definition lower_chr :: "char \<Rightarrow> char" where
  "lower_chr c =
     (case map_of (zip (ascii_uppercase @ latin1_uppercase)
                       (ascii_lowercase @ latin1_lowercase)) c of
        Some d \<Rightarrow> d
      | None \<Rightarrow> c)"

definition lower :: "string \<Rightarrow> string" where
  "lower s = map lower_chr s"

text \<open>\<open>s.replace('_', ' ')\<close>.\<close>

definition replace_underscores :: "string \<Rightarrow> string" where
  "replace_underscores s = map (\<lambda>c. if c = CHR ''_'' then CHR '' '' else c) s"

text \<open>\<open>s.endswith(suffix)\<close>.\<close>

definition endswith :: "string \<Rightarrow> string \<Rightarrow> bool" where
  "endswith s suffix =
     (length suffix \<le> length s \<and> drop (length s - length suffix) s = suffix)"

text \<open>
  \<open>os.path.splitext(f)[0]\<close> for a directory entry \<open>f\<close> (no separator) that ends
  in \<open>.txt\<close>: the part before the last dot, unless that part consists of dots only
  (leading dots are not an extension), in which case the whole entry.
\<close>

definition splitext_root :: "string \<Rightarrow> string" where
  "splitext_root f =
     (let stem = take (length f - 4) f
      in if list_all (\<lambda>c. c = CHR ''.'') stem then f else stem)"

text \<open>
  \<open>str.split()\<close>: the maximal runs of non-whitespace characters. Below 256 the
  whitespace characters are tab, line feed, vertical tab, form feed, carriage return,
  the separators 0x1C..0x1F, the space, the next-line control 0x85 and the no-break
  space 0xA0.
\<close>

definition is_space :: "char \<Rightarrow> bool" where
  "is_space c = (c \<in> set [CHR 0x09, CHR 0x0A, CHR 0x0B, CHR 0x0C, CHR 0x0D,
                            CHR 0x1C, CHR 0x1D, CHR 0x1E, CHR 0x1F, CHR '' '',
                            CHR 0x85, CHR 0xA0])"

fun split_from :: "string \<Rightarrow> string \<Rightarrow> string list" where
  "split_from cur [] = (if cur = [] then [] else [cur])"
| "split_from cur (c # cs) =
     (if is_space c then (if cur = [] then split_from [] cs else cur # split_from [] cs)
      else split_from (cur @ [c]) cs)"

definition split :: "string \<Rightarrow> string list" where
  "split s = split_from [] s"

text \<open>\<open>"_".join(args)\<close>.\<close>

fun join_underscore :: "string list \<Rightarrow> string" where
  "join_underscore [] = []"
| "join_underscore [a] = a"
| "join_underscore (a # b # bs) = a @ ''_'' @ join_underscore (b # bs)"

text \<open>
  Text read from a file opened in text mode: the line ends \<open>CR LF\<close> and \<open>CR\<close> arrive
  as \<open>LF\<close>. Text written on a POSIX system goes out as it is.
\<close>

fun universal_newlines :: "string \<Rightarrow> string" where
  "universal_newlines [] = []"
| "universal_newlines [c] = (if c = CHR 0x0D then [CHR 0x0A] else [c])"
| "universal_newlines (c # d # cs) =
     (if c = CHR 0x0D \<and> d = CHR 0x0A then CHR 0x0A # universal_newlines cs
      else if c = CHR 0x0D then CHR 0x0A # universal_newlines (d # cs)
      else c # universal_newlines (d # cs))"

section \<open>Data model\<close>

text \<open>
  Class \<open>Note\<close>. The time stamp is the reading of a clock (a natural number);
  \<open>strftime\<close> is not modelled, the table shows the reading itself.
\<close>

record Note =
  name :: string
  content :: string
  edited_time :: nat
  filepath :: string

text \<open>
  Exceptions that the program can meet. The string is the path or the message.
  \<open>exit()\<close> raises \<open>SystemExit\<close>.
\<close>

datatype exn =
    FileNotFoundError string
  | NotADirectoryError string
  | IsADirectoryError string
  | PermissionError string
  | OSError string
  | ValueError string
  | UnicodeDecodeError string
  | AttributeError string
  | EOFError
  | SystemExit

datatype 'a result = Done 'a | Raised exn

text \<open>
  What the program writes to the terminal, in order: \<open>print\<close>ed text, the prompt of
  an \<open>input\<close> call, the screen clearing of \<open>os.system\<close>, the logo, the help text,
  and the table handed to \<open>PrettyTable\<close> (one row per note: index, name, time,
  content preview).
\<close>

type_synonym row = "nat \<times> string \<times> nat \<times> string"

datatype out =
    Print string
  | Prompt string
  | Clear
  | Logo
  | Help
  | Table "row list"

text \<open>
  The file system. A location is the list of names that leads from the root to a
  file or directory; names are compared as they are written, and there are no links.
  At a location there is a directory, a file with its text, or a file that cannot be
  read as text (the exception is what the read raises: the bytes do not decode, or
  permission is denied). Text is stored in an encoding that holds every character.
\<close>

type_synonym location = "string list"

datatype node = Dir | File string | Unreadable exn

text \<open>
  The state of a run. \<open>notes\<close> is \<open>Notebook.notes\<close>; a reference to a \<open>Note\<close>
  object is its position in this list (the methods of \<open>Note\<close> take such a position,
  which \<open>get_note\<close> or \<open>create_note\<close> supplies). \<open>script_dir\<close> is
  \<open>os.path.dirname(__file__)\<close> and \<open>cwd\<close> the location of the working
  directory. \<open>files\<close> is the file system, the root apart, which is always a
  directory. \<open>refuses\<close> is the system's answer to an attempt to create, replace
  or remove the file at a location, for reasons the file system above does not show
  (permission, quota, a name too long): \<open>None\<close> when it lets the attempt pass.
  \<open>clock\<close> is what \<open>datetime.now()\<close> reads next; \<open>stdin\<close> holds the lines not
  yet read; \<open>stdout\<close> is the terminal output so far. \<open>editor\<close> is the environment's
  answer to \<open>subprocess.run(["open", "-t", path])\<close> followed by the user's editing:
  either the launch fails with an exception, or the files are as the user left them.
\<close>

record world =
  "notes" :: "Note list"
  script_dir :: string
  cwd :: location
  files :: "location \<rightharpoonup> node"
  refuses :: "location \<Rightarrow> exn option"
  clock :: nat
  stdin :: "string list"
  stdout :: "out list"
  editor :: "string \<Rightarrow> (location \<rightharpoonup> node) \<Rightarrow> exn + (location \<rightharpoonup> node)"

section \<open>Environment primitives\<close>

definition print :: "string \<Rightarrow> world \<Rightarrow> world" where
  "print s w = w\<lparr>stdout := stdout w @ [Print s]\<rparr>"

definition emit :: "out \<Rightarrow> world \<Rightarrow> world" where
  "emit e w = w\<lparr>stdout := stdout w @ [e]\<rparr>"

text \<open>\<open>input(prompt)\<close>: writes the prompt, reads one line; at end of input it raises.\<close>

definition input :: "string \<Rightarrow> world \<Rightarrow> string result \<times> world" where
  "input prompt w =
     (let w1 = emit (Prompt prompt) w
      in case stdin w1 of
           [] \<Rightarrow> (Raised EOFError, w1)
         | l # ls \<Rightarrow> (Done l, w1\<lparr>stdin := ls\<rparr>))"

definition datetime_now :: "world \<Rightarrow> nat \<times> world" where
  "datetime_now w = (clock w, w\<lparr>clock := Suc (clock w)\<rparr>)"

text \<open>
  \<open>os.path.join(folder, entry)\<close> on a POSIX system: an absolute \<open>entry\<close> replaces
  the folder, and a separator is put in unless the folder is empty or ends in one.
\<close>

definition path_join :: "string \<Rightarrow> string \<Rightarrow> string" where
  "path_join folder entry =
     (if entry \<noteq> [] \<and> hd entry = CHR ''/'' then entry
      else if folder = [] \<or> last folder = CHR ''/'' then folder @ entry
      else folder @ CHR ''/'' # entry)"

text \<open>The module's global \<open>notes_folder\<close>.\<close>

definition notes_folder :: "world \<Rightarrow> string" where
  "notes_folder w = path_join (script_dir w) ''notes''"

text \<open>
  How the system resolves a path. \<open>components\<close> cuts it at the separators.
  \<open>walk\<close> follows directory names from a location: an empty name and \<open>.\<close> stay,
  \<open>..\<close> goes up, any other name must be a directory there. \<open>locate\<close> walks all but
  the last component, from the root for an absolute path and from the working
  directory otherwise, and then takes the last component as the name of the file. A
  path with a NUL character is turned down by Python before the system sees it.
\<close>

fun components :: "string \<Rightarrow> string list" where
  "components [] = [[]]"
| "components (c # cs) =
     (if c = CHR ''/'' then [] # components cs
      else (case components cs of [] \<Rightarrow> [[c]] | x # xs \<Rightarrow> (c # x) # xs))"

fun walk :: "(location \<rightharpoonup> node) \<Rightarrow> string \<Rightarrow> location \<Rightarrow> string list \<Rightarrow> exn + location" where
  "walk fs p cur [] = Inr cur"
| "walk fs p cur (c # cs) =
     (if c = [] \<or> c = ''.'' then walk fs p cur cs
      else if c = ''..'' then walk fs p (butlast cur) cs
      else (case fs (cur @ [c]) of
              None \<Rightarrow> Inl (FileNotFoundError p)
            | Some Dir \<Rightarrow> walk fs p (cur @ [c]) cs
            | Some _ \<Rightarrow> Inl (NotADirectoryError p)))"

definition start_of :: "string \<Rightarrow> world \<Rightarrow> location" where
  "start_of p w = (if p \<noteq> [] \<and> hd p = CHR ''/'' then [] else cwd w)"

definition locate :: "string \<Rightarrow> world \<Rightarrow> exn + location" where
  "locate p w =
     (if CHR 0x00 \<in> set p then Inl (ValueError ''embedded null byte'')
      else if p = [] then Inl (FileNotFoundError p)
      else (case walk (files w) p (start_of p w) (butlast (components p)) of
              Inl e \<Rightarrow> Inl e
            | Inr d \<Rightarrow>
                (let l = last (components p)
                 in if l = [] \<or> l = ''.'' then Inr d
                    else if l = ''..'' then Inr (butlast d)
                    else Inr (d @ [l]))))"

definition node_at :: "world \<Rightarrow> location \<Rightarrow> node option" where
  "node_at w loc = (if loc = [] then Some Dir else files w loc)"

text \<open>\<open>os.path.exists\<close> answers \<open>False\<close> where the path cannot be resolved.\<close>

definition os_path_exists :: "string \<Rightarrow> world \<Rightarrow> bool" where
  "os_path_exists p w =
     (case locate p w of Inl e \<Rightarrow> False | Inr loc \<Rightarrow> node_at w loc \<noteq> None)"

text \<open>\<open>open(p, "r").read()\<close>.\<close>

definition read_file :: "string \<Rightarrow> world \<Rightarrow> string result" where
  "read_file p w =
     (case locate p w of
        Inl e \<Rightarrow> Raised e
      | Inr loc \<Rightarrow>
          (case node_at w loc of
             None \<Rightarrow> Raised (FileNotFoundError p)
           | Some Dir \<Rightarrow> Raised (IsADirectoryError p)
           | Some (Unreadable e) \<Rightarrow> Raised e
           | Some (File c) \<Rightarrow> Done (universal_newlines c)))"

text \<open>
  \<open>open(p, "w").write(c)\<close> creates or replaces the file, when the path resolves, no
  directory has that name and the system lets it pass.
\<close>

definition write_file :: "string \<Rightarrow> string \<Rightarrow> world \<Rightarrow> unit result \<times> world" where
  "write_file p c w =
     (case locate p w of
        Inl e \<Rightarrow> (Raised e, w)
      | Inr loc \<Rightarrow>
          (if node_at w loc = Some Dir then (Raised (IsADirectoryError p), w)
           else (case refuses w loc of
                   Some e \<Rightarrow> (Raised e, w)
                 | None \<Rightarrow> (Done (), w\<lparr>files := (files w)(loc \<mapsto> File c)\<rparr>))))"

text \<open>
  \<open>os.rename(src, dst)\<close> for a source that is a file: it raises when the source is
  missing, when the target does not resolve or is a directory, and when the system
  turns the removal or the creation down; a file renamed to itself stays. A source
  that is a directory is moved, with all it holds, when nothing is at the target
  (the system would also let it take the place of an empty directory; the files of
  notes are not directories).
\<close>

definition move_tree :: "location \<Rightarrow> location \<Rightarrow> (location \<rightharpoonup> node) \<Rightarrow> (location \<rightharpoonup> node)" where
  "move_tree src dst fs =
     (\<lambda>l. if take (length dst) l = dst then fs (src @ drop (length dst) l)
          else if take (length src) l = src then None
          else fs l)"

definition refusal :: "world \<Rightarrow> location \<Rightarrow> location \<Rightarrow> exn option" where
  "refusal w src dst = (case refuses w src of Some e \<Rightarrow> Some e | None \<Rightarrow> refuses w dst)"

definition os_rename :: "string \<Rightarrow> string \<Rightarrow> world \<Rightarrow> unit result \<times> world" where
  "os_rename src dst w =
     (case locate src w of
        Inl e \<Rightarrow> (Raised e, w)
      | Inr ls \<Rightarrow>
          (case node_at w ls of
             None \<Rightarrow> (Raised (FileNotFoundError src), w)
           | Some nd \<Rightarrow>
               (case locate dst w of
                  Inl e \<Rightarrow> (Raised e, w)
                | Inr ld \<Rightarrow>
                    (if ls = ld then (Done (), w)
                     else if ls = [] \<or> ld = [] then (Raised (OSError dst), w)
                     else if nd = Dir \<and> (node_at w ld \<noteq> None \<or> take (length ls) ld = ls)
                     then (Raised (OSError dst), w)
                     else if nd \<noteq> Dir \<and> node_at w ld = Some Dir
                     then (Raised (IsADirectoryError dst), w)
                     else (case refusal w ls ld of
                             Some e \<Rightarrow> (Raised e, w)
                           | None \<Rightarrow>
                               (if nd = Dir
                                then (Done (), w\<lparr>files := move_tree ls ld (files w)\<rparr>)
                                else (Done (), w\<lparr>files := ((files w)(ls := None))
                                                              (ld \<mapsto> nd)\<rparr>)))))))"

text \<open>
  The two file names the program builds from a note's name: \<open>f"{name}.txt"\<close>, joined
  to \<open>notes_folder\<close>, and \<open>f"notes/{name}.txt"\<close>, relative to the working directory.
\<close>

definition txt_name :: "string \<Rightarrow> string" where
  "txt_name nm = nm @ ''.txt''"

definition display_path :: "string \<Rightarrow> string" where
  "display_path nm = ''notes'' @ CHR ''/'' # txt_name nm"

text \<open>\<open>str(e)\<close> of an exception.\<close>

fun str_exn :: "exn \<Rightarrow> string" where
  "str_exn (FileNotFoundError p) =
     ''[Errno 2] No such file or directory: '' @ [CHR 0x27] @ p @ [CHR 0x27]"
| "str_exn (NotADirectoryError p) =
     ''[Errno 20] Not a directory: '' @ [CHR 0x27] @ p @ [CHR 0x27]"
| "str_exn (IsADirectoryError p) =
     ''[Errno 21] Is a directory: '' @ [CHR 0x27] @ p @ [CHR 0x27]"
| "str_exn (PermissionError p) =
     ''[Errno 13] Permission denied: '' @ [CHR 0x27] @ p @ [CHR 0x27]"
| "str_exn (OSError s) = s"
| "str_exn (ValueError s) = s"
| "str_exn (UnicodeDecodeError s) = s"
| "str_exn (AttributeError s) = s"
| "str_exn EOFError = ''EOF when reading a line''"
| "str_exn SystemExit = []"

text \<open>\<open>except Exception\<close> does not catch \<open>SystemExit\<close>.\<close>

fun is_Exception :: "exn \<Rightarrow> bool" where
  "is_Exception SystemExit = False"
| "is_Exception _ = True"

section \<open>Class Note\<close>

definition Note_init :: "string \<Rightarrow> string option \<Rightarrow> world \<Rightarrow> Note \<times> world" where
  "Note_init nm c w =
     (let (t, w1) = datetime_now w
      in (\<lparr>name = nm,
           content = (case c of Some s \<Rightarrow> s | None \<Rightarrow> []),
           edited_time = t,
           filepath = path_join (notes_folder w) (txt_name nm)\<rparr>, w1))"

text \<open>\<open>Note.save\<close>: what the write raises leaves the method before the time is set.\<close>

definition Note_save :: "nat \<Rightarrow> world \<Rightarrow> unit result \<times> world" where
  "Note_save i w =
     (let n = notes w ! i
      in case write_file (filepath n) (content n) w of
           (Raised e, w1) \<Rightarrow> (Raised e, w1)
         | (Done _, w1) \<Rightarrow>
             (let (t, w2) = datetime_now w1
              in (Done (), w2\<lparr>notes := (notes w2)[i := n\<lparr>edited_time := t\<rparr>]\<rparr>)))"

definition Note_load_content :: "nat \<Rightarrow> world \<Rightarrow> unit result \<times> world" where
  "Note_load_content i w =
     (let n = notes w ! i
      in case read_file (filepath n) w of
           Raised e \<Rightarrow> (Raised e, w)
         | Done c \<Rightarrow> (Done (), w\<lparr>notes := (notes w)[i := n\<lparr>content := c\<rparr>]\<rparr>))"

text \<open>
  The body of the \<open>try\<close> block of \<open>Note.edit\<close>, and \<open>Note.edit\<close> itself: whatever
  the block raises that is an \<open>Exception\<close> is reported and swallowed. The save of a
  missing file comes before the block.
\<close>

definition Note_edit_try :: "nat \<Rightarrow> world \<Rightarrow> unit result \<times> world" where
  "Note_edit_try i w =
     (case editor w (filepath (notes w ! i)) (files w) of
        Inl e \<Rightarrow> (Raised e, w)
      | Inr fs \<Rightarrow>
          (let w1 = print ''Note is opened in the text editor. Please save your changes and close the editor.''
                      (w\<lparr>files := fs\<rparr>)
           in case input ''Press Enter when you are done editing...'' w1 of
                (Raised e, w2) \<Rightarrow> (Raised e, w2)
              | (Done _, w2) \<Rightarrow> Note_load_content i w2))"

definition Note_edit :: "nat \<Rightarrow> world \<Rightarrow> unit result \<times> world" where
  "Note_edit i w =
     (case (if \<not> os_path_exists (filepath (notes w ! i)) w
            then Note_save i (print ''The note file does not exist. Creating a new file.'' w)
            else (Done (), w)) of
        (Raised e, w1) \<Rightarrow> (Raised e, w1)
      | (Done _, w1) \<Rightarrow>
          (case Note_edit_try i w1 of
             (Raised e, w2) \<Rightarrow>
               (if is_Exception e
                then (Done (), print (''An error occurred: '' @ str_exn e) w2)
                else (Raised e, w2))
           | (Done u, w2) \<Rightarrow> (Done u, w2)))"

text \<open>
  Class \<open>Note\<close> defines no method \<open>delete\<close>: looking the attribute up raises.
\<close>

definition Note_delete :: "nat \<Rightarrow> world \<Rightarrow> unit result \<times> world" where
  "Note_delete i w =
     (Raised (AttributeError (CHR 0x27 # ''Note'' @ [CHR 0x27] @ '' object has no attribute ''
                               @ [CHR 0x27] @ ''delete'' @ [CHR 0x27])), w)"

section \<open>Class Notebook\<close>

text \<open>
  \<open>load_notes\<close>. \<open>listing\<close> is what \<open>os.listdir(notes_folder)\<close> returned, in its
  order. Entries that do not end in \<open>.txt\<close> are skipped.
\<close>

fun load_loop :: "string list \<Rightarrow> Note list \<Rightarrow> world \<Rightarrow> Note list result \<times> world" where
  "load_loop [] acc w = (Done acc, w)"
| "load_loop (note_file # rest) acc w =
     (if endswith note_file ''.txt''
      then (case read_file (path_join (notes_folder w) note_file) w of
              Raised e \<Rightarrow> (Raised e, w)
            | Done c \<Rightarrow>
                (let (n, w1) = Note_init (splitext_root note_file) (Some c) w
                 in load_loop rest (acc @ [n]) w1))
      else load_loop rest acc w)"

definition load_notes :: "string list \<Rightarrow> world \<Rightarrow> Note list result \<times> world" where
  "load_notes listing w = load_loop listing [] w"

definition Notebook_init :: "string list \<Rightarrow> world \<Rightarrow> unit result \<times> world" where
  "Notebook_init listing w =
     (case load_notes listing w of
        (Raised e, w1) \<Rightarrow> (Raised e, w1)
      | (Done ns, w1) \<Rightarrow> (Done (), w1\<lparr>notes := ns\<rparr>))"

text \<open>
  \<open>display_notes\<close>. The loop opens \<open>display_path\<close> of the name, a path relative to the
  working directory, for every note, and builds the row from the note in memory.
\<close>

definition preview :: "string \<Rightarrow> string" where
  "preview c = (if length c > 50 then take 50 c @ ''...'' else c)"

fun display_rows :: "nat \<Rightarrow> Note list \<Rightarrow> world \<Rightarrow> row list result" where
  "display_rows i [] w = Done []"
| "display_rows i (n # ns) w =
     (case read_file (display_path (name n)) w of
        Raised e \<Rightarrow> Raised e
      | Done contents \<Rightarrow>
          (case display_rows (Suc i) ns w of
             Raised e \<Rightarrow> Raised e
           | Done rows \<Rightarrow>
               Done ((i, replace_underscores (name n), edited_time n, preview (content n)) # rows)))"

definition display_notes :: "world \<Rightarrow> unit result \<times> world" where
  "display_notes w =
     (case display_rows 1 (notes w) w of
        Raised e \<Rightarrow> (Raised e, w)
      | Done rows \<Rightarrow> (Done (), emit (Table rows) w))"

definition help_hint :: string where
  "help_hint = CHR 0x0A # ''Type '' @ [CHR 0x27] @ ''help'' @ [CHR 0x27]
                 @ '' to see the list of commands'' @ [CHR 0x0A]"

definition reset_screen :: "world \<Rightarrow> unit result \<times> world" where
  "reset_screen w =
     (let w1 = emit Clear w;
          w2 = emit Logo w1;
          w3 = print help_hint w2
      in case display_notes w3 of
           (Raised e, w4) \<Rightarrow> (Raised e, w4)
         | (Done _, w4) \<Rightarrow> (Done (), print [CHR 0x0A] w4))"

definition home :: "world \<Rightarrow> unit result \<times> world" where
  "home w = reset_screen w"

definition display_help :: "world \<Rightarrow> world" where
  "display_help w = emit Help w"

definition note_exists :: "string \<Rightarrow> world \<Rightarrow> bool" where
  "note_exists nm w = list_ex (\<lambda>n. lower (name n) = lower nm) (notes w)"

text \<open>
  \<open>get_note\<close> returns the first note whose lowered name is the lowered argument:
  \<open>first_match\<close> gives its position, \<open>None\<close> is Python's \<open>None\<close>.
\<close>

fun first_match :: "string \<Rightarrow> Note list \<Rightarrow> nat option" where
  "first_match nm [] = None"
| "first_match nm (n # ns) =
     (if lower (name n) = lower nm then Some 0 else map_option Suc (first_match nm ns))"

definition get_note :: "string \<Rightarrow> world \<Rightarrow> nat option" where
  "get_note nm w = first_match nm (notes w)"

definition conflict_message :: string where
  "conflict_message = ''A note with this name already exists. Please choose a different name.''"

text \<open>\<open>create_note\<close> appends the note before it saves it.\<close>

definition create_note :: "string \<Rightarrow> world \<Rightarrow> unit result \<times> world" where
  "create_note nm w =
     (if note_exists nm w then (Done (), print conflict_message w)
      else (case input ''Enter the content of your note (press Enter to finish): '' w of
              (Raised e, w1) \<Rightarrow> (Raised e, w1)
            | (Done c, w1) \<Rightarrow>
                (let (n, w2) = Note_init nm (Some c) w1;
                     w3 = w2\<lparr>notes := notes w2 @ [n]\<rparr>
                 in case Note_save (length (notes w2)) w3 of
                      (Raised e, w4) \<Rightarrow> (Raised e, w4)
                    | (Done _, w4) \<Rightarrow> reset_screen w4)))"

text \<open>\<open>rename_note\<close> gives the note its new name and path before it moves the file.\<close>

definition rename_note :: "string \<Rightarrow> string \<Rightarrow> world \<Rightarrow> unit result \<times> world" where
  "rename_note old_name new_name w =
     (if lower old_name \<noteq> lower new_name \<and> note_exists new_name w
      then (Done (), print conflict_message w)
      else (case get_note old_name w of
              Some i \<Rightarrow>
                (let n = notes w ! i;
                     old_filepath = filepath n;
                     new_filepath = path_join (notes_folder w) (txt_name new_name);
                     w1 = w\<lparr>notes := (notes w)[i := n\<lparr>name := new_name,
                                                      filepath := new_filepath\<rparr>]\<rparr>
                 in case os_rename old_filepath new_filepath w1 of
                      (Raised e, w2) \<Rightarrow> (Raised e, w2)
                    | (Done _, w2) \<Rightarrow>
                        (case Note_save i w2 of
                           (Raised e, w3) \<Rightarrow> (Raised e, w3)
                         | (Done _, w3) \<Rightarrow>
                             (case reset_screen w3 of
                                (Raised e, w4) \<Rightarrow> (Raised e, w4)
                              | (Done _, w4) \<Rightarrow>
                                  (Done (), print ''Note renamed successfully.'' w4))))
            | None \<Rightarrow>
                (case reset_screen w of
                   (Raised e, w1) \<Rightarrow> (Raised e, w1)
                 | (Done _, w1) \<Rightarrow> (Done (), print ''Note not found.'' w1))))"

text \<open>\<open>self.notes.remove(note)\<close> removes the object the reference points to.\<close>

definition remove_at :: "nat \<Rightarrow> 'a list \<Rightarrow> 'a list" where
  "remove_at i xs = take i xs @ drop (Suc i) xs"

definition delete_prompt :: "string \<Rightarrow> string" where
  "delete_prompt nm =
     ''Are you sure you want to delete the note '' @ [CHR 0x27] @ nm @ [CHR 0x27]
       @ ''? (yes/no): ''"

definition delete_note :: "string \<Rightarrow> world \<Rightarrow> bool result \<times> world" where
  "delete_note nm w =
     (case get_note nm w of
        Some i \<Rightarrow>
          (case input (delete_prompt nm) w of
             (Raised e, w1) \<Rightarrow> (Raised e, w1)
           | (Done confirmation, w1) \<Rightarrow>
               (if lower confirmation = ''yes''
                then (case Note_delete i w1 of
                        (Raised e, w2) \<Rightarrow> (Raised e, w2)
                      | (Done _, w2) \<Rightarrow>
                          (case reset_screen (w2\<lparr>notes := remove_at i (notes w2)\<rparr>) of
                             (Raised e, w3) \<Rightarrow> (Raised e, w3)
                           | (Done _, w3) \<Rightarrow> (Done True, w3)))
                else (Done False, print ''Deletion cancelled.'' w1)))
      | None \<Rightarrow>
          (case reset_screen w of
             (Raised e, w1) \<Rightarrow> (Raised e, w1)
           | (Done _, w1) \<Rightarrow> (Done False, w1)))"

section \<open>Class CommandProcessor\<close>

definition CommandProcessor_home :: "string list \<Rightarrow> world \<Rightarrow> unit result \<times> world" where
  "CommandProcessor_home args w = home w"

definition CommandProcessor_create :: "string list \<Rightarrow> world \<Rightarrow> unit result \<times> world" where
  "CommandProcessor_create args w =
     (if args \<noteq> [] then create_note (join_underscore args) w
      else (Done (), print ''Please provide a note name.'' w))"

definition CommandProcessor_edit :: "string list \<Rightarrow> world \<Rightarrow> unit result \<times> world" where
  "CommandProcessor_edit args w =
     (if length args > 0
      then (case get_note (join_underscore args) w of
              Some i \<Rightarrow>
                (case Note_edit i w of
                   (Raised e, w1) \<Rightarrow> (Raised e, w1)
                 | (Done _, w1) \<Rightarrow>
                     (case Note_save i w1 of
                        (Raised e, w2) \<Rightarrow> (Raised e, w2)
                      | (Done _, w2) \<Rightarrow> reset_screen w2))
            | None \<Rightarrow> (Done (), print ''Note not found.'' w))
      else (Done (), print ''Please provide a note name.'' w))"

definition CommandProcessor_delete :: "string list \<Rightarrow> world \<Rightarrow> unit result \<times> world" where
  "CommandProcessor_delete args w =
     (if length args > 0
      then (case delete_note (hd args) w of
              (Raised e, w1) \<Rightarrow> (Raised e, w1)
            | (Done True, w1) \<Rightarrow> (Done (), print ''Note deleted successfully.'' w1)
            | (Done False, w1) \<Rightarrow> (Done (), print ''Note not found.'' w1))
      else (Done (), print ''Please provide a note name.'' w))"

definition CommandProcessor_rename :: "string list \<Rightarrow> world \<Rightarrow> unit result \<times> world" where
  "CommandProcessor_rename args w =
     (if length args > 1
      then rename_note (hd args) (join_underscore (tl args)) w
      else (Done (), print ''Please provide the old and new note names.'' w))"

definition CommandProcessor_help :: "string list \<Rightarrow> world \<Rightarrow> unit result \<times> world" where
  "CommandProcessor_help args w = (Done (), display_help w)"

definition CommandProcessor_exit :: "string list \<Rightarrow> world \<Rightarrow> unit result \<times> world" where
  "CommandProcessor_exit args w = (Raised SystemExit, w)"

text \<open>The dictionary \<open>self.commands\<close>.\<close>

definition commands :: "string \<rightharpoonup> (string list \<Rightarrow> world \<Rightarrow> unit result \<times> world)" where
  "commands = map_of
     [(''home'', CommandProcessor_home),
      (''create'', CommandProcessor_create),
      (''edit'', CommandProcessor_edit),
      (''delete'', CommandProcessor_delete),
      (''rename'', CommandProcessor_rename),
      (''help'', CommandProcessor_help),
      (''exit'', CommandProcessor_exit),
      (''quit'', CommandProcessor_exit),
      (''q'', CommandProcessor_exit)]"

definition process :: "string \<Rightarrow> world \<Rightarrow> unit result \<times> world" where
  "process command w =
     (case split command of
        [] \<Rightarrow> (Done (), w)
      | t # ts \<Rightarrow>
          (case commands (lower t) of
             Some handler \<Rightarrow> handler ts w
           | None \<Rightarrow> (Done (), print ''Invalid command'' w)))"

section \<open>The interactive loop\<close>

text \<open>
  One pass through the body of \<open>while True\<close>, and the loop itself. The loop has no
  exit of its own: it ends when a pass raises. \<open>main_loop n\<close> runs at most \<open>n\<close>
  passes; its first component is the exception that ended the loop, or \<open>None\<close> when
  the loop is still running after \<open>n\<close> passes. The script's entry point creates
  the notes folder when it is missing, which has no counterpart here.
\<close>

definition main_iteration :: "world \<Rightarrow> unit result \<times> world" where
  "main_iteration w =
     (case input ''Notebook> '' w of
        (Raised e, w1) \<Rightarrow> (Raised e, w1)
      | (Done command, w1) \<Rightarrow> process command w1)"

fun main_loop :: "nat \<Rightarrow> world \<Rightarrow> exn option \<times> world" where
  "main_loop 0 w = (None, w)"
| "main_loop (Suc n) w =
     (case main_iteration w of
        (Raised e, w1) \<Rightarrow> (Some e, w1)
      | (Done _, w1) \<Rightarrow> main_loop n w1)"

definition main :: "string list \<Rightarrow> nat \<Rightarrow> world \<Rightarrow> exn option \<times> world" where
  "main listing n w =
     (case Notebook_init listing w of
        (Raised e, w1) \<Rightarrow> (Some e, w1)
      | (Done _, w1) \<Rightarrow>
          (case reset_screen w1 of
             (Raised e, w2) \<Rightarrow> (Some e, w2)
           | (Done _, w2) \<Rightarrow> main_loop n w2))"

section \<open>Properties of the data model\<close>

text \<open>
  Two strings are equal up to ASCII case when they have the same length and, position
  by position, the same character or the upper-case and lower-case form of one of
  the letters \<open>A\<close>..\<open>Z\<close>. They are equal ignoring case when the same holds with the
  accented letters counted in.
\<close>

definition same_letter :: "char \<Rightarrow> char \<Rightarrow> bool" where
  "same_letter c d =
     (c = d \<or> (c, d) \<in> set (zip ascii_uppercase ascii_lowercase)
            \<or> (d, c) \<in> set (zip ascii_uppercase ascii_lowercase))"

definition equal_up_to_case :: "string \<Rightarrow> string \<Rightarrow> bool" where
  "equal_up_to_case a b = list_all2 same_letter a b"

definition letter_pairs :: "(char \<times> char) list" where
  "letter_pairs = zip ascii_uppercase ascii_lowercase @ zip latin1_uppercase latin1_lowercase"

definition same_letter_ignoring_case :: "char \<Rightarrow> char \<Rightarrow> bool" where
  "same_letter_ignoring_case c d =
     (c = d \<or> (c, d) \<in> set letter_pairs \<or> (d, c) \<in> set letter_pairs)"

definition equal_ignoring_case :: "string \<Rightarrow> string \<Rightarrow> bool" where
  "equal_ignoring_case a b = list_all2 same_letter_ignoring_case a b"

text \<open>No two notes of the collection have names that are equal in lower case.\<close>

definition unique_names :: "world \<Rightarrow> bool" where
  "unique_names w = distinct (map (\<lambda>n. lower (name n)) (notes w))"

text \<open>
  The path \<open><notes_folder>/<name>.txt\<close>, and the text of the file that a path names,
  when there is one. A note is backed by its file: its path is that of its name, and
  the file there holds the note's content.
\<close>

definition note_path :: "world \<Rightarrow> string \<Rightarrow> string" where
  "note_path w nm = notes_folder w @ CHR ''/'' # txt_name nm"

definition file_content :: "string \<Rightarrow> world \<Rightarrow> string option" where
  "file_content p w =
     (case locate p w of
        Inl e \<Rightarrow> None
      | Inr loc \<Rightarrow> (case node_at w loc of Some (File c) \<Rightarrow> Some c | _ \<Rightarrow> None))"

definition backed :: "world \<Rightarrow> Note \<Rightarrow> bool" where
  "backed w n =
     (filepath n = note_path w (name n) \<and> file_content (filepath n) w = Some (content n))"

text \<open>A path opens when reading it gives text.\<close>

definition opens :: "string \<Rightarrow> world \<Rightarrow> bool" where
  "opens p w = (case read_file p w of Done c \<Rightarrow> True | Raised e \<Rightarrow> False)"

text \<open>
  A relative path does not begin with a separator; a plain name holds no separator
  and no NUL character. A path can be written when it resolves, no directory has
  that name and the system lets the write pass. A file can be moved from one path to
  another when it is there, the system lets it go, and the other path can be
  written.
\<close>

definition relative :: "string \<Rightarrow> bool" where
  "relative p = (p = [] \<or> hd p \<noteq> CHR ''/'')"

definition plain_name :: "string \<Rightarrow> bool" where
  "plain_name nm = (CHR ''/'' \<notin> set nm \<and> CHR 0x00 \<notin> set nm)"

definition can_write :: "string \<Rightarrow> world \<Rightarrow> bool" where
  "can_write p w =
     (case locate p w of
        Inl e \<Rightarrow> False
      | Inr loc \<Rightarrow> node_at w loc \<noteq> Some Dir \<and> refuses w loc = None)"

definition can_move :: "string \<Rightarrow> string \<Rightarrow> world \<Rightarrow> bool" where
  "can_move src dst w =
     (can_write src w \<and> os_path_exists src w \<and> can_write dst w)"

text \<open>
  The location of a directory given by its path. The program runs in place when
  \<open>notes_folder\<close> and the relative path \<open>notes\<close> name the same directory. The
  notebook mirrors the disk when, in addition, names are unique and every note is on
  disk: it has a plain name and a file of text at the path of its name, which the
  system lets the program replace or remove.
\<close>

definition dir_loc :: "string \<Rightarrow> world \<Rightarrow> location option" where
  "dir_loc d w =
     (if CHR 0x00 \<in> set d then None
      else (case walk (files w) d (start_of d w) (components d) of
              Inl e \<Rightarrow> None
            | Inr l \<Rightarrow> Some l))"

definition in_place :: "world \<Rightarrow> bool" where
  "in_place w =
     (dir_loc (notes_folder w) w \<noteq> None \<and>
      dir_loc (notes_folder w) w = dir_loc ''notes'' w)"

definition on_disk :: "world \<Rightarrow> Note \<Rightarrow> bool" where
  "on_disk w n =
     (plain_name (name n) \<and> filepath n = note_path w (name n) \<and>
      file_content (filepath n) w \<noteq> None \<and> can_write (filepath n) w)"

definition mirrored :: "world \<Rightarrow> bool" where
  "mirrored w = (in_place w \<and> unique_names w \<and> list_all (on_disk w) (notes w))"

text \<open>
  Two file systems have the same directories; the second keeps the text files of the
  first when, in addition, every file of text is still a file of text (its text may
  have changed). The editor behaves when a failed launch is an \<open>Exception\<close> and a
  session keeps the text files.
\<close>

definition same_dirs :: "(location \<rightharpoonup> node) \<Rightarrow> (location \<rightharpoonup> node) \<Rightarrow> bool" where
  "same_dirs fs fs' = (\<forall>l. (fs' l = Some Dir) = (fs l = Some Dir))"

definition keeps_text :: "(location \<rightharpoonup> node) \<Rightarrow> (location \<rightharpoonup> node) \<Rightarrow> bool" where
  "keeps_text fs fs' =
     (same_dirs fs fs' \<and> (\<forall>l. (\<exists>c. fs l = Some (File c)) \<longrightarrow> (\<exists>c. fs' l = Some (File c))))"

definition editor_keeps_files :: "world \<Rightarrow> bool" where
  "editor_keeps_files w =
     (\<forall>p fs. case editor w p fs of Inl e \<Rightarrow> is_Exception e | Inr fs' \<Rightarrow> keeps_text fs fs')"

text \<open>
  The two kinds of command line that end in an exception by the program's own doing:
  an exit command, and a \<open>delete\<close> of a note that exists, answered with \<open>yes\<close>.
\<close>

definition is_exit :: "string \<Rightarrow> bool" where
  "is_exit command =
     (case split command of [] \<Rightarrow> False | t # _ \<Rightarrow> lower t \<in> set [''exit'', ''quit'', ''q''])"

definition confirmed_delete :: "string \<Rightarrow> world \<Rightarrow> bool" where
  "confirmed_delete command w =
     (case split command of
        t # a # _ \<Rightarrow>
          lower t = ''delete'' \<and> get_note a w \<noteq> None \<and>
          (case stdin w of [] \<Rightarrow> False | l # _ \<Rightarrow> lower l = ''yes'')
      | _ \<Rightarrow> False)"

text \<open>
  The name that a \<open>create\<close> or \<open>rename\<close> command gives to a note, when it gives
  one, is fit when it is plain and its file in the notes folder can be written.
\<close>

definition named_by :: "string \<Rightarrow> string option" where
  "named_by command =
     (case split command of
        [] \<Rightarrow> None
      | t # ts \<Rightarrow>
          (if lower t = ''create'' \<and> ts \<noteq> [] then Some (join_underscore ts)
           else if lower t = ''rename'' \<and> length ts > 1 then Some (join_underscore (tl ts))
           else None))"

definition fit_name :: "string \<Rightarrow> world \<Rightarrow> bool" where
  "fit_name command w =
     (case named_by command of
        None \<Rightarrow> True
      | Some nm \<Rightarrow> plain_name nm \<and> can_write (note_path w nm) w)"

text \<open>The entries of a directory listing that \<open>load_notes\<close> reads.\<close>

definition txt_entries :: "string list \<Rightarrow> string list" where
  "txt_entries listing = filter (\<lambda>f. endswith f ''.txt'') listing"

section \<open>Example states\<close>

text \<open>
  A notebook whose script lies in \<open>/home/user\<close> and is run there, holding the
  given notes, each with its backing file in \<open>/home/user/notes\<close>, and the given
  lines waiting on standard input. The system refuses nothing and the editor leaves
  every file as it is.
\<close>

definition example_dir :: string where
  "example_dir = ''/home/user''"

definition example_note :: "string \<Rightarrow> string \<Rightarrow> Note" where
  "example_note nm c =
     \<lparr>name = nm, content = c, edited_time = 0,
      filepath = path_join (path_join example_dir ''notes'') (txt_name nm)\<rparr>"

definition example_folders :: "(location \<times> node) list" where
  "example_folders =
     [([''home''], Dir), ([''home'', ''user''], Dir), ([''home'', ''user'', ''notes''], Dir)]"

definition example_world :: "Note list \<Rightarrow> string list \<Rightarrow> world" where
  "example_world ns lines =
     \<lparr>notes = ns, script_dir = example_dir, cwd = [''home'', ''user''],
      files = map_of (example_folders @
                map (\<lambda>n. ([''home'', ''user'', ''notes'', txt_name (name n)], File (content n))) ns),
      refuses = (\<lambda>l. None),
      clock = 1, stdin = lines, stdout = [], editor = (\<lambda>p fs. Inr fs)\<rparr>"

definition long_note :: Note where
  "long_note = example_note ''long'' (replicate 60 (CHR ''a''))"

definition short_note :: Note where
  "short_note = example_note ''short'' (replicate 40 (CHR ''b''))"

text \<open>The same files on disk, before \<open>Notebook()\<close> has loaded them.\<close>

definition example_disk :: "Note list \<Rightarrow> world" where
  "example_disk ns = (example_world ns [])\<lparr>notes := []\<rparr>"

text \<open>
  A session in an empty notes folder: create a note, list, rename it, list.
\<close>

definition scenario :: "string list" where
  "scenario = [''create shopping_list'', ''eggs'', ''home'',
               ''rename shopping_list groceries'', ''home'']"

section \<open>Evaluation rules\<close>

lemmas lower_eval =
  lower_def lower_chr_def ascii_uppercase_def ascii_lowercase_def latin1_uppercase_def
  latin1_lowercase_def

lemmas path_eval =
  path_join_def txt_name_def display_path_def locate_def start_of_def node_at_def
  notes_folder_def note_path_def

lemmas example_eval =
  example_world_def example_note_def example_folders_def example_dir_def path_eval

section \<open>What the environment depends on\<close>

lemma notes_folder_eq: "script_dir w' = script_dir w \<Longrightarrow> notes_folder w' = notes_folder w"
  by (simp add: notes_folder_def)

lemma note_path_eq: "script_dir w' = script_dir w \<Longrightarrow> note_path w' nm = note_path w nm"
  by (simp add: note_path_def notes_folder_def)

lemma locate_cong:
  "files w' = files w \<Longrightarrow> cwd w' = cwd w \<Longrightarrow> locate p w' = locate p w"
  by (simp add: locate_def start_of_def)

lemma node_at_cong: "files w' = files w \<Longrightarrow> node_at w' loc = node_at w loc"
  by (simp add: node_at_def)

lemma read_file_cong:
  "files w' = files w \<Longrightarrow> cwd w' = cwd w \<Longrightarrow> read_file p w' = read_file p w"
  by (simp add: read_file_def node_at_cong [of w' w] locate_cong [of w' w] cong: sum.case_cong)

lemma file_content_cong:
  "files w' = files w \<Longrightarrow> cwd w' = cwd w \<Longrightarrow> file_content p w' = file_content p w"
  by (simp add: file_content_def node_at_cong [of w' w] locate_cong [of w' w] cong: sum.case_cong)

lemma os_path_exists_cong:
  "files w' = files w \<Longrightarrow> cwd w' = cwd w \<Longrightarrow> os_path_exists p w' = os_path_exists p w"
  by (simp add: os_path_exists_def node_at_cong [of w' w] locate_cong [of w' w]
      cong: sum.case_cong)

lemma can_write_cong:
  "files w' = files w \<Longrightarrow> cwd w' = cwd w \<Longrightarrow> refuses w' = refuses w \<Longrightarrow>
   can_write p w' = can_write p w"
  by (simp add: can_write_def node_at_cong [of w' w] locate_cong [of w' w] cong: sum.case_cong)

lemma dir_loc_cong:
  "files w' = files w \<Longrightarrow> cwd w' = cwd w \<Longrightarrow> dir_loc d w' = dir_loc d w"
  by (simp add: dir_loc_def start_of_def)

lemma notes_folder_update [simp]:
  "notes_folder (w\<lparr>notes := ns\<rparr>) = notes_folder w"
  "notes_folder (w\<lparr>clock := t\<rparr>) = notes_folder w"
  "notes_folder (w\<lparr>stdin := ls\<rparr>) = notes_folder w"
  "notes_folder (w\<lparr>stdout := out\<rparr>) = notes_folder w"
  "notes_folder (w\<lparr>editor := ed\<rparr>) = notes_folder w"
  "notes_folder (w\<lparr>files := fs\<rparr>) = notes_folder w"
  "notes_folder (w\<lparr>cwd := cd\<rparr>) = notes_folder w"
  "notes_folder (w\<lparr>refuses := rf\<rparr>) = notes_folder w"
  by (simp_all add: notes_folder_def)

lemma note_path_update [simp]:
  "note_path (w\<lparr>notes := ns\<rparr>) nm = note_path w nm"
  "note_path (w\<lparr>clock := t\<rparr>) nm = note_path w nm"
  "note_path (w\<lparr>stdin := ls\<rparr>) nm = note_path w nm"
  "note_path (w\<lparr>stdout := out\<rparr>) nm = note_path w nm"
  "note_path (w\<lparr>editor := ed\<rparr>) nm = note_path w nm"
  "note_path (w\<lparr>files := fs\<rparr>) nm = note_path w nm"
  "note_path (w\<lparr>cwd := cd\<rparr>) nm = note_path w nm"
  "note_path (w\<lparr>refuses := rf\<rparr>) nm = note_path w nm"
  by (simp_all add: note_path_def)

lemma locate_update [simp]:
  "locate p (w\<lparr>notes := ns\<rparr>) = locate p w"
  "locate p (w\<lparr>clock := t\<rparr>) = locate p w"
  "locate p (w\<lparr>stdin := ls\<rparr>) = locate p w"
  "locate p (w\<lparr>stdout := out\<rparr>) = locate p w"
  "locate p (w\<lparr>editor := ed\<rparr>) = locate p w"
  by ((rule locate_cong; simp)+)

lemma node_at_update [simp]:
  "node_at (w\<lparr>notes := ns\<rparr>) loc = node_at w loc"
  "node_at (w\<lparr>clock := t\<rparr>) loc = node_at w loc"
  "node_at (w\<lparr>stdin := ls\<rparr>) loc = node_at w loc"
  "node_at (w\<lparr>stdout := out\<rparr>) loc = node_at w loc"
  "node_at (w\<lparr>editor := ed\<rparr>) loc = node_at w loc"
  by ((rule node_at_cong; simp)+)

lemma read_file_update [simp]:
  "read_file p (w\<lparr>notes := ns\<rparr>) = read_file p w"
  "read_file p (w\<lparr>clock := t\<rparr>) = read_file p w"
  "read_file p (w\<lparr>stdin := ls\<rparr>) = read_file p w"
  "read_file p (w\<lparr>stdout := out\<rparr>) = read_file p w"
  "read_file p (w\<lparr>editor := ed\<rparr>) = read_file p w"
  by ((rule read_file_cong; simp)+)

lemma file_content_update [simp]:
  "file_content p (w\<lparr>notes := ns\<rparr>) = file_content p w"
  "file_content p (w\<lparr>clock := t\<rparr>) = file_content p w"
  "file_content p (w\<lparr>stdin := ls\<rparr>) = file_content p w"
  "file_content p (w\<lparr>stdout := out\<rparr>) = file_content p w"
  "file_content p (w\<lparr>editor := ed\<rparr>) = file_content p w"
  by ((rule file_content_cong; simp)+)

lemma os_path_exists_update [simp]:
  "os_path_exists p (w\<lparr>notes := ns\<rparr>) = os_path_exists p w"
  "os_path_exists p (w\<lparr>clock := t\<rparr>) = os_path_exists p w"
  "os_path_exists p (w\<lparr>stdin := ls\<rparr>) = os_path_exists p w"
  "os_path_exists p (w\<lparr>stdout := out\<rparr>) = os_path_exists p w"
  "os_path_exists p (w\<lparr>editor := ed\<rparr>) = os_path_exists p w"
  by ((rule os_path_exists_cong; simp)+)

lemma can_write_update [simp]:
  "can_write p (w\<lparr>notes := ns\<rparr>) = can_write p w"
  "can_write p (w\<lparr>clock := t\<rparr>) = can_write p w"
  "can_write p (w\<lparr>stdin := ls\<rparr>) = can_write p w"
  "can_write p (w\<lparr>stdout := out\<rparr>) = can_write p w"
  "can_write p (w\<lparr>editor := ed\<rparr>) = can_write p w"
  by ((rule can_write_cong; simp)+)

lemma dir_loc_update [simp]:
  "dir_loc d (w\<lparr>notes := ns\<rparr>) = dir_loc d w"
  "dir_loc d (w\<lparr>clock := t\<rparr>) = dir_loc d w"
  "dir_loc d (w\<lparr>stdin := ls\<rparr>) = dir_loc d w"
  "dir_loc d (w\<lparr>stdout := out\<rparr>) = dir_loc d w"
  "dir_loc d (w\<lparr>editor := ed\<rparr>) = dir_loc d w"
  by ((rule dir_loc_cong; simp)+)

lemma in_place_update [simp]:
  "in_place (w\<lparr>notes := ns\<rparr>) = in_place w"
  "in_place (w\<lparr>clock := t\<rparr>) = in_place w"
  "in_place (w\<lparr>stdin := ls\<rparr>) = in_place w"
  "in_place (w\<lparr>stdout := out\<rparr>) = in_place w"
  "in_place (w\<lparr>editor := ed\<rparr>) = in_place w"
  by (simp_all add: in_place_def)

section \<open>What the operations leave alone\<close>

lemma display_rows_cong:
  "files w' = files w \<Longrightarrow> cwd w' = cwd w \<Longrightarrow> display_rows i ns w' = display_rows i ns w"
  by (induction ns arbitrary: i) (simp_all add: read_file_cong [of w' w] cong: result.case_cong)

lemma display_rows_stdout [simp]:
  "display_rows i ns (w\<lparr>stdout := out\<rparr>) = display_rows i ns w"
  by (rule display_rows_cong) simp_all

lemma reset_screen_eq:
  "reset_screen w =
     (case display_rows (Suc 0) (notes w) w of
        Done rows \<Rightarrow>
          (Done (), w\<lparr>stdout := stdout w @ [Clear, Logo, Print help_hint, Table rows,
                                               Print [CHR 0x0A]]\<rparr>)
      | Raised e \<Rightarrow>
          (Raised e, w\<lparr>stdout := stdout w @ [Clear, Logo, Print help_hint]\<rparr>))"
  by (simp add: reset_screen_def display_notes_def emit_def print_def Let_def
      split: result.splits)

lemma reset_screen_frame:
  "\<exists>es. snd (reset_screen w) = w\<lparr>stdout := stdout w @ es\<rparr> \<and> Print conflict_message \<notin> set es"
  by (auto simp: reset_screen_eq help_hint_def conflict_message_def split: result.splits)

lemma reset_screen_fields [simp]:
  "notes (snd (reset_screen w)) = notes w"
  "files (snd (reset_screen w)) = files w"
  "cwd (snd (reset_screen w)) = cwd w"
  "script_dir (snd (reset_screen w)) = script_dir w"
  "refuses (snd (reset_screen w)) = refuses w"
  "stdin (snd (reset_screen w)) = stdin w"
  "clock (snd (reset_screen w)) = clock w"
  "editor (snd (reset_screen w)) = editor w"
  by (simp_all add: reset_screen_eq split: result.splits)

lemma Note_init_name [simp]:
  "name (fst (Note_init nm c w)) = nm"
  "files (snd (Note_init nm c w)) = files w"
  "cwd (snd (Note_init nm c w)) = cwd w"
  "script_dir (snd (Note_init nm c w)) = script_dir w"
  "notes (snd (Note_init nm c w)) = notes w"
  by (simp_all add: Note_init_def datetime_now_def)

lemma map_update_same:
  "f y = f (xs ! i) \<Longrightarrow> map f (xs[i := y]) = map f xs"
  by (cases "i < length xs") (simp_all add: map_update list_update_same_conv list_update_beyond)

lemma map_name_touch:
  "map name (ns[i := (ns ! i)\<lparr>edited_time := t\<rparr>]) = map name ns"
  "map name (ns[i := (ns ! i)\<lparr>content := c\<rparr>]) = map name ns"
  by (simp_all add: map_update_same)

lemma write_file_fields [simp]:
  "notes (snd (write_file p c w)) = notes w"
  "cwd (snd (write_file p c w)) = cwd w"
  "script_dir (snd (write_file p c w)) = script_dir w"
  "refuses (snd (write_file p c w)) = refuses w"
  "editor (snd (write_file p c w)) = editor w"
  "stdin (snd (write_file p c w)) = stdin w"
  "stdout (snd (write_file p c w)) = stdout w"
  "clock (snd (write_file p c w)) = clock w"
  by (simp_all add: write_file_def split: sum.splits option.splits)

lemma Note_save_names [simp]: "map name (notes (snd (Note_save i w))) = map name (notes w)"
proof (cases "write_file (filepath (notes w ! i)) (content (notes w ! i)) w")
  case (Pair r w1)
  with write_file_fields(1) [of "filepath (notes w ! i)" "content (notes w ! i)" w]
  have n: "notes w1 = notes w" by simp
  from Pair n show ?thesis
    by (cases r) (simp_all add: Note_save_def datetime_now_def Let_def map_name_touch)
qed

lemma after_reset [simp]:
  "notes (snd (case reset_screen v of (Raised e, w3) \<Rightarrow> (Raised e, w3)
                                    | (Done u, w3) \<Rightarrow> (Done (), print s w3))) = notes v"
  "files (snd (case reset_screen v of (Raised e, w3) \<Rightarrow> (Raised e, w3)
                                    | (Done u, w3) \<Rightarrow> (Done (), print s w3))) = files v"
  "cwd (snd (case reset_screen v of (Raised e, w3) \<Rightarrow> (Raised e, w3)
                                  | (Done u, w3) \<Rightarrow> (Done (), print s w3))) = cwd v"
  "script_dir (snd (case reset_screen v of (Raised e, w3) \<Rightarrow> (Raised e, w3)
                                         | (Done u, w3) \<Rightarrow> (Done (), print s w3))) = script_dir v"
  "refuses (snd (case reset_screen v of (Raised e, w3) \<Rightarrow> (Raised e, w3)
                                      | (Done u, w3) \<Rightarrow> (Done (), print s w3))) = refuses v"
  "stdin (snd (case reset_screen v of (Raised e, w3) \<Rightarrow> (Raised e, w3)
                                    | (Done u, w3) \<Rightarrow> (Done (), print s w3))) = stdin v"
  "clock (snd (case reset_screen v of (Raised e, w3) \<Rightarrow> (Raised e, w3)
                                    | (Done u, w3) \<Rightarrow> (Done (), print s w3))) = clock v"
  "editor (snd (case reset_screen v of (Raised e, w3) \<Rightarrow> (Raised e, w3)
                                     | (Done u, w3) \<Rightarrow> (Done (), print s w3))) = editor v"
  by (simp_all add: reset_screen_eq print_def split: result.splits)

lemma os_rename_fields [simp]:
  "notes (snd (os_rename src dst w)) = notes w"
  "cwd (snd (os_rename src dst w)) = cwd w"
  "script_dir (snd (os_rename src dst w)) = script_dir w"
  "refuses (snd (os_rename src dst w)) = refuses w"
  "editor (snd (os_rename src dst w)) = editor w"
  "stdin (snd (os_rename src dst w)) = stdin w"
  "stdout (snd (os_rename src dst w)) = stdout w"
  "clock (snd (os_rename src dst w)) = clock w"
  by (simp_all add: os_rename_def split: sum.splits option.splits)

lemma print_fields [simp]:
  "notes (print s w) = notes w" "files (print s w) = files w" "cwd (print s w) = cwd w"
  "script_dir (print s w) = script_dir w" "stdin (print s w) = stdin w"
  "clock (print s w) = clock w" "editor (print s w) = editor w"
  "refuses (print s w) = refuses w"
  by (simp_all add: print_def)

lemma delete_note_notes [simp]: "notes (snd (delete_note nm w)) = notes w"
proof (cases "get_note nm w")
  case None
  obtain r1 w1 where r1: "reset_screen w = (r1, w1)" by force
  with reset_screen_fields(1) [of w] have "notes w1 = notes w" by simp
  with None r1 show ?thesis by (cases r1) (simp_all add: delete_note_def)
next
  case (Some i)
  then show ?thesis
    by (simp add: delete_note_def input_def emit_def Note_delete_def print_def Let_def
        split: list.splits)
qed

section \<open>Looking a note up\<close>

lemma first_match_None: "first_match nm ns = None \<longleftrightarrow> \<not> list_ex (\<lambda>n. lower (name n) = lower nm) ns"
  by (induction ns) auto

lemma first_match_append_new:
  "\<not> list_ex (\<lambda>n. lower (name n) = lower nm) ns \<Longrightarrow> lower (name n) = lower nm \<Longrightarrow>
   first_match nm (ns @ [n]) = Some (length ns)"
  by (induction ns) auto

lemma first_match_Some:
  "first_match nm ns = Some i \<Longrightarrow> i < length ns \<and> lower (name (ns ! i)) = lower nm"
  by (induction ns arbitrary: i) (auto split: if_splits)

section \<open>Paths\<close>

lemma components_ne [simp]: "components s \<noteq> []"
  by (induction s) (auto split: list.splits)

lemma components_append:
  "components (x @ CHR ''/'' # e) = components x @ components e"
proof (induction x)
  case Nil
  show ?case by simp
next
  case (Cons c cs)
  obtain y ys where y: "components cs = y # ys" by (cases "components cs") simp_all
  with Cons show ?case by simp
qed

lemma components_plain: "CHR ''/'' \<notin> set e \<Longrightarrow> components e = [e]"
  by (induction e) auto

lemma walk_same_dirs:
  "same_dirs fs fs' \<Longrightarrow> (walk fs' p cur cs = Inr l) = (walk fs q cur cs = Inr l)"
proof (induction cs arbitrary: cur)
  case Nil
  show ?case by simp
next
  case (Cons c cs)
  from Cons.prems have d: "(fs' (cur @ [c]) = Some Dir) = (fs (cur @ [c]) = Some Dir)"
    by (simp add: same_dirs_def)
  show ?case
  proof (cases "fs (cur @ [c]) = Some Dir")
    case True
    with d have "fs' (cur @ [c]) = Some Dir" by simp
    with True Cons show ?thesis by simp
  next
    case False
    with d have f: "fs' (cur @ [c]) \<noteq> Some Dir" by simp
    from False have "walk fs q cur (c # cs) = Inr l \<longleftrightarrow>
                     (c = [] \<or> c = ''.'') \<and> walk fs q cur cs = Inr l \<or>
                     c = ''..'' \<and> walk fs q (butlast cur) cs = Inr l"
      by (auto split: option.splits node.splits)
    moreover from f have "walk fs' p cur (c # cs) = Inr l \<longleftrightarrow>
                     (c = [] \<or> c = ''.'') \<and> walk fs' p cur cs = Inr l \<or>
                     c = ''..'' \<and> walk fs' p (butlast cur) cs = Inr l"
      by (auto split: option.splits node.splits)
    ultimately show ?thesis using Cons by simp
  qed
qed

lemma same_dirs_refl [simp]: "same_dirs fs fs"
  by (simp add: same_dirs_def)

lemma case_Inr_eq:
  assumes "\<And>l. (a = Inr l) = (b = Inr l)"
  shows "((case a of Inl e \<Rightarrow> Inl e | Inr d \<Rightarrow> f d) = Inr l) =
         ((case b of Inl e \<Rightarrow> Inl e | Inr d \<Rightarrow> f d) = Inr l)"
proof (cases a)
  case (Inl x)
  with assms have "\<And>l. b \<noteq> Inr l" by simp
  then obtain y where "b = Inl y" by (cases b) auto
  with Inl show ?thesis by simp
next
  case (Inr d)
  with assms [of d] have "b = Inr d" by blast
  with Inr show ?thesis by simp
qed

lemma case_Inr_option:
  assumes "\<And>l. (a = Inr l) = (b = Inr l)"
  shows "(case a of Inl e \<Rightarrow> None | Inr d \<Rightarrow> Some d) =
         (case b of Inl e \<Rightarrow> None | Inr d \<Rightarrow> Some d)"
proof (cases a)
  case (Inl x)
  with assms have "\<And>l. b \<noteq> Inr l" by simp
  then obtain y where "b = Inl y" by (cases b) auto
  with Inl show ?thesis by simp
next
  case (Inr d)
  with assms [of d] have "b = Inr d" by blast
  with Inr show ?thesis by simp
qed

lemma locate_same_dirs:
  assumes "same_dirs (files w) (files w')" and "cwd w' = cwd w"
  shows "(locate p w' = Inr l) = (locate p w = Inr l)"
proof (cases "CHR 0x00 \<in> set p \<or> p = []")
  case True
  then show ?thesis by (auto simp: locate_def)
next
  case False
  define f :: "location \<Rightarrow> exn + location" where
    "f = (\<lambda>d. let l = last (components p)
              in if l = [] \<or> l = ''.'' then Inr d
                 else if l = ''..'' then Inr (butlast d) else Inr (d @ [l]))"
  define cs where "cs = butlast (components p)"
  have s: "start_of p w' = start_of p w" by (simp add: start_of_def assms(2))
  from False have 1: "locate p w' = (case walk (files w') p (start_of p w) cs of
                                       Inl e \<Rightarrow> Inl e | Inr d \<Rightarrow> f d)"
    unfolding locate_def s f_def cs_def by simp
  from False have 2: "locate p w = (case walk (files w) p (start_of p w) cs of
                                      Inl e \<Rightarrow> Inl e | Inr d \<Rightarrow> f d)"
    unfolding locate_def f_def cs_def by simp
  show ?thesis
    unfolding 1 2 by (rule case_Inr_eq) (rule walk_same_dirs [OF assms(1)])
qed

lemma dir_loc_same_dirs:
  assumes "same_dirs (files w) (files w')" and "cwd w' = cwd w"
  shows "dir_loc d w' = dir_loc d w"
proof -
  have s: "start_of d w' = start_of d w" by (simp add: start_of_def assms(2))
  have "(case walk (files w') d (start_of d w) (components d) of
           Inl e \<Rightarrow> None | Inr l \<Rightarrow> Some l) =
        (case walk (files w) d (start_of d w) (components d) of
           Inl e \<Rightarrow> None | Inr l \<Rightarrow> Some l)"
    by (rule case_Inr_option) (rule walk_same_dirs [OF assms(1)])
  then show ?thesis
    unfolding dir_loc_def s by simp
qed

text \<open>A file named by a plain entry under a directory path lies in that directory.\<close>

lemma locate_in_dir:
  assumes e: "CHR ''/'' \<notin> set e" "CHR 0x00 \<notin> set e" "e \<noteq> []" "e \<noteq> ''.''" "e \<noteq> ''..''"
    and d: "d \<noteq> []"
  shows "(locate (d @ CHR ''/'' # e) w = Inr loc) =
         (\<exists>D. dir_loc d w = Some D \<and> loc = D @ [e])"
proof -
  let ?p = "d @ CHR ''/'' # e"
  have c: "components ?p = components d @ [e]"
    by (simp add: components_append components_plain e(1))
  have s: "start_of ?p w = start_of d w"
    using d by (simp add: start_of_def)
  have n: "(CHR 0x00 \<in> set ?p) = (CHR 0x00 \<in> set d)"
    using e(2) by auto
  have w: "(walk (files w) ?p (start_of d w) (components d) = Inr D) =
           (walk (files w) d (start_of d w) (components d) = Inr D)" for D
    by (rule walk_same_dirs) simp
  show ?thesis
  proof (cases "CHR 0x00 \<in> set d")
    case True
    then show ?thesis by (simp add: locate_def dir_loc_def n)
  next
    case False
    show ?thesis
    proof (cases "walk (files w) d (start_of d w) (components d)")
      case (Inl x)
      with w have "\<And>D. walk (files w) ?p (start_of d w) (components d) \<noteq> Inr D" by simp
      then obtain y where "walk (files w) ?p (start_of d w) (components d) = Inl y"
        by (cases "walk (files w) ?p (start_of d w) (components d)") auto
      with Inl False show ?thesis
        by (simp add: locate_def dir_loc_def n c s)
    next
      case (Inr D)
      with w have "walk (files w) ?p (start_of d w) (components d) = Inr D" by simp
      with Inr False e show ?thesis
        by (auto simp: locate_def dir_loc_def n c s)
    qed
  qed
qed

lemma txt_name_plain:
  assumes "plain_name nm"
  shows "CHR ''/'' \<notin> set (txt_name nm)" "CHR 0x00 \<notin> set (txt_name nm)"
    "txt_name nm \<noteq> []" "txt_name nm \<noteq> ''.''" "txt_name nm \<noteq> ''..''"
    "hd (txt_name nm) \<noteq> CHR ''/''"
proof -
  from assms have s: "CHR ''/'' \<notin> set nm" and z: "CHR 0x00 \<notin> set nm"
    by (simp_all add: plain_name_def)
  from s show "CHR ''/'' \<notin> set (txt_name nm)" by (simp add: txt_name_def)
  from z show "CHR 0x00 \<notin> set (txt_name nm)" by (simp add: txt_name_def)
  show "txt_name nm \<noteq> []" "txt_name nm \<noteq> ''.''" "txt_name nm \<noteq> ''..''"
    by (simp_all add: txt_name_def append_eq_Cons_conv)
  show "hd (txt_name nm) \<noteq> CHR ''/''"
  proof (cases nm)
    case Nil
    then show ?thesis by (simp add: txt_name_def)
  next
    case (Cons c cs)
    with s show ?thesis by (auto simp: txt_name_def)
  qed
qed

lemma notes_folder_shape: "notes_folder w \<noteq> []" "last (notes_folder w) \<noteq> CHR ''/''"
  by (simp_all add: notes_folder_def path_join_def)

lemma path_join_note_path:
  "hd (txt_name nm) \<noteq> CHR ''/'' \<Longrightarrow> path_join (notes_folder w) (txt_name nm) = note_path w nm"
  by (simp add: path_join_def note_path_def notes_folder_shape)

lemma locate_note_path:
  assumes "plain_name nm"
  shows "(locate (note_path w nm) w = Inr loc) =
         (\<exists>D. dir_loc (notes_folder w) w = Some D \<and> loc = D @ [txt_name nm])"
  unfolding note_path_def
  by (rule locate_in_dir [OF txt_name_plain(1-5) [OF assms] notes_folder_shape(1)])

lemma locate_display_path:
  assumes "plain_name nm"
  shows "(locate (display_path nm) w = Inr loc) =
         (\<exists>D. dir_loc ''notes'' w = Some D \<and> loc = D @ [txt_name nm])"
  unfolding display_path_def
  by (rule locate_in_dir [OF txt_name_plain(1-5) [OF assms]]) simp

section \<open>Folding case\<close>

lemma fold_case_table:
  assumes "distinct us" and "distinct ls" and "length us = length ls" and "set us \<inter> set ls = {}"
  defines "f \<equiv> \<lambda>c. case map_of (zip us ls) c of Some d \<Rightarrow> d | None \<Rightarrow> c"
  shows "f c = f d \<longleftrightarrow> c = d \<or> (c, d) \<in> set (zip us ls) \<or> (d, c) \<in> set (zip us ls)"
proof -
  have fst_zip: "map fst (zip us ls) = us" and snd_zip: "map snd (zip us ls) = ls"
    using assms(3) by simp_all
  have up: "map_of (zip us ls) x = Some y \<longleftrightarrow> (x, y) \<in> set (zip us ls)" for x y
    by (rule map_of_eq_Some_iff) (simp add: fst_zip assms(1))
  have no: "map_of (zip us ls) x = None \<longleftrightarrow> x \<notin> set us" for x
    using fst_zip by (simp add: map_of_eq_None_iff flip: set_map)
  have "inj_on snd (set (zip us ls))"
    using assms(2) snd_zip distinct_map [of snd "zip us ls"] by simp
  then have inj: "(x, y) \<in> set (zip us ls) \<Longrightarrow> (x', y) \<in> set (zip us ls) \<Longrightarrow> x = x'" for x x' y
    unfolding inj_on_def by fastforce
  have l: "(x, y) \<in> set (zip us ls) \<Longrightarrow> x \<in> set us \<and> y \<in> set ls \<and> y \<notin> set us" for x y
    using assms(4) by (auto dest: set_zip_leftD set_zip_rightD)
  have fN: "f x = x \<and> x \<notin> set us" if "map_of (zip us ls) x = None" for x
    using that no [of x] by (simp add: f_def)
  have fS: "f x = y \<and> (x, y) \<in> set (zip us ls) \<and> x \<in> set us \<and> y \<notin> set us"
    if "map_of (zip us ls) x = Some y" for x y
    using that up [of x y] l [of x y] by (simp add: f_def)
  have zipD: "(x, y) \<in> set (zip us ls) \<Longrightarrow> map_of (zip us ls) x = Some y" for x y
    by (simp add: up)
  show ?thesis
  proof (cases "map_of (zip us ls) c")
    case cN: None
    show ?thesis
    proof (cases "map_of (zip us ls) d")
      case None
      from fN [OF cN] fN [OF None] l [of c d] l [of d c] show ?thesis by auto
    next
      case (Some y)
      from fN [OF cN] fS [OF Some] l [of c d] zipD [of d c] Some show ?thesis by auto
    qed
  next
    case cS: (Some x)
    show ?thesis
    proof (cases "map_of (zip us ls) d")
      case None
      from fS [OF cS] fN [OF None] l [of d c] zipD [of c d] cS show ?thesis by auto
    next
      case (Some y)
      from fS [OF cS] fS [OF Some] l [of c d] l [of d c] inj [of c x d] show ?thesis by auto
    qed
  qed
qed

lemma letter_pairs_zip:
  "zip (ascii_uppercase @ latin1_uppercase) (ascii_lowercase @ latin1_lowercase) = letter_pairs"
  by (simp add: letter_pairs_def ascii_uppercase_def ascii_lowercase_def)

lemma lower_chr_eq_iff: "lower_chr c = lower_chr d \<longleftrightarrow> same_letter_ignoring_case c d"
  unfolding lower_chr_def same_letter_ignoring_case_def letter_pairs_zip [symmetric]
  by (rule fold_case_table)
     (simp_all add: ascii_uppercase_def ascii_lowercase_def latin1_uppercase_def
        latin1_lowercase_def)

lemma lower_eq_iff: "lower a = lower b \<longleftrightarrow> equal_ignoring_case a b"
  unfolding lower_def equal_ignoring_case_def
proof (induction a arbitrary: b)
  case Nil
  then show ?case by auto
next
  case (Cons x a)
  then show ?case by (cases b) (auto simp: lower_chr_eq_iff)
qed

lemma same_letter_ignoring_case: "same_letter c d \<Longrightarrow> same_letter_ignoring_case c d"
  by (auto simp: same_letter_def same_letter_ignoring_case_def letter_pairs_def)

lemma equal_up_to_case_ignoring: "equal_up_to_case a b \<Longrightarrow> equal_ignoring_case a b"
  unfolding equal_up_to_case_def equal_ignoring_case_def
  by (erule list_all2_mono) (rule same_letter_ignoring_case)

text \<open>
  C2. When a note of the collection has a name that equals \<open>m\<close> up to ASCII case,
  \<open>note_exists m\<close> is true; and \<open>note_exists m\<close> is true exactly when the
  collection holds a note whose name equals \<open>m\<close> ignoring case.
\<close>

theorem note_exists_case_insensitive:
  "(\<forall>n\<in>set (notes w). equal_up_to_case (name n) m \<longrightarrow> note_exists m w) \<and>
   (note_exists m w \<longleftrightarrow> (\<exists>n\<in>set (notes w). equal_ignoring_case (name n) m))"
proof -
  have "note_exists m w \<longleftrightarrow> (\<exists>n\<in>set (notes w). equal_ignoring_case (name n) m)"
    by (simp add: note_exists_def list_ex_iff lower_eq_iff)
  then show ?thesis by (auto dest: equal_up_to_case_ignoring)
qed

theorem note_exists_case_insensitive_witness:
  "equal_up_to_case ''Foo'' ''foo'' \<and>
   note_exists ''foo'' (example_world [example_note ''Foo'' ''hello''] []) \<and>
   \<not> note_exists ''fo'' (example_world [example_note ''Foo'' ''hello''] []) \<and>
   note_exists [CHR 0xE9] (example_world [example_note [CHR 0xC9] ''hello''] []) \<and>
   \<not> note_exists [CHR 0xF7] (example_world [example_note [CHR 0xD7] ''hello''] [])"
proof -
  let ?w = "example_world [example_note ''Foo'' ''hello''] []"
  let ?v = "example_world [example_note [CHR 0xC9] ''hello''] []"
  let ?u = "example_world [example_note [CHR 0xD7] ''hello''] []"
  have e: "equal_up_to_case ''Foo'' ''foo''"
    by (simp add: equal_up_to_case_def same_letter_def ascii_uppercase_def ascii_lowercase_def)
  have n: "\<not> equal_ignoring_case ''Foo'' ''fo''"
    by (simp add: equal_ignoring_case_def)
  have a: "equal_ignoring_case [CHR 0xC9] [CHR 0xE9]"
    by (simp add: equal_ignoring_case_def same_letter_ignoring_case_def letter_pairs_def
        ascii_uppercase_def ascii_lowercase_def latin1_uppercase_def latin1_lowercase_def)
  have m: "\<not> equal_ignoring_case [CHR 0xD7] [CHR 0xF7]"
    by (simp add: equal_ignoring_case_def same_letter_ignoring_case_def letter_pairs_def
        ascii_uppercase_def ascii_lowercase_def latin1_uppercase_def latin1_lowercase_def)
  have ns: "notes ?w = [example_note ''Foo'' ''hello'']"
    "notes ?v = [example_note [CHR 0xC9] ''hello'']"
    "notes ?u = [example_note [CHR 0xD7] ''hello'']"
    by (simp_all add: example_world_def)
  from note_exists_case_insensitive [of ?w "''foo''", unfolded ns] e
  have "note_exists ''foo'' ?w" by (simp add: example_note_def)
  moreover from note_exists_case_insensitive [of ?w "''fo''", unfolded ns] n
  have "\<not> note_exists ''fo'' ?w" by (simp add: example_note_def)
  moreover from note_exists_case_insensitive [of ?v "[CHR 0xE9]", unfolded ns] a
  have "note_exists [CHR 0xE9] ?v" by (simp add: example_note_def)
  moreover from note_exists_case_insensitive [of ?u "[CHR 0xF7]", unfolded ns] m
  have "\<not> note_exists [CHR 0xF7] ?u" by (simp add: example_note_def)
  ultimately show ?thesis using e by simp
qed

section \<open>The table of notes\<close>

lemma display_rows_Done:
  "display_rows i ns w = Done rows \<Longrightarrow>
   length rows = length ns \<and>
   (\<forall>k<length ns. rows ! k =
      (i + k, replace_underscores (name (ns ! k)), edited_time (ns ! k), preview (content (ns ! k))))"
proof (induction ns arbitrary: i rows)
  case Nil
  then show ?case by simp
next
  case (Cons n ns)
  from Cons.prems obtain rs where
    rs: "display_rows (Suc i) ns w = Done rs" and
    rows: "rows = (i, replace_underscores (name n), edited_time n, preview (content n)) # rs"
    by (auto split: result.splits)
  from Cons.IH [OF rs] show ?case
    by (auto simp: rows nth_Cons split: nat.splits)
qed

lemma display_rows_total:
  "\<forall>n\<in>set ns. opens (display_path (name n)) w \<Longrightarrow>
   \<exists>rows. display_rows i ns w = Done rows"
proof (induction ns arbitrary: i)
  case Nil
  then show ?case by simp
next
  case (Cons n ns)
  from Cons.prems obtain c where
    c: "read_file (display_path (name n)) w = Done c"
    by (auto simp: opens_def split: result.splits)
  from Cons.IH [of "Suc i"] Cons.prems obtain rs where
    rs: "display_rows (Suc i) ns w = Done rs" by auto
  show ?case by (simp add: c rs)
qed

text \<open>
  C8. When the file that \<open>display_notes\<close> reads opens for every note, it prints one
  table with a row per note, in order; the content column of a note whose content is
  longer than 50 characters is the first 50 characters followed by three dots, and
  the content itself when it has 50 characters or fewer.
\<close>

theorem display_notes_preview:
  assumes "\<forall>n\<in>set (notes w). opens (display_path (name n)) w"
  shows "\<exists>rows. display_notes w = (Done (), w\<lparr>stdout := stdout w @ [Table rows]\<rparr>) \<and>
           length rows = length (notes w) \<and>
           (\<forall>k<length (notes w).
              (length (content (notes w ! k)) > 50 \<longrightarrow>
                 snd (snd (snd (rows ! k))) = take 50 (content (notes w ! k)) @ ''...'') \<and>
              (length (content (notes w ! k)) \<le> 50 \<longrightarrow>
                 snd (snd (snd (rows ! k))) = content (notes w ! k)))"
proof -
  from display_rows_total [OF assms] obtain rows where
    rows: "display_rows (Suc 0) (notes w) w = Done rows" by blast
  have "display_notes w = (Done (), w\<lparr>stdout := stdout w @ [Table rows]\<rparr>)"
    by (simp add: display_notes_def rows emit_def)
  moreover from display_rows_Done [OF rows] have "length rows = length (notes w)"
    and "\<forall>k<length (notes w). snd (snd (snd (rows ! k))) = preview (content (notes w ! k))"
    by simp_all
  ultimately show ?thesis
    by (intro exI [of _ rows]) (simp add: preview_def)
qed

theorem display_notes_preview_witness:
  "opens (display_path (name long_note)) (example_world [long_note, short_note] []) \<and>
   opens (display_path (name short_note)) (example_world [long_note, short_note] []) \<and>
   (\<exists>rows. display_notes (example_world [long_note, short_note] []) =
             (Done (), (example_world [long_note, short_note] [])\<lparr>stdout := [Table rows]\<rparr>) \<and>
           snd (snd (snd (rows ! 0))) = replicate 50 (CHR ''a'') @ ''...'' \<and>
           snd (snd (snd (rows ! 1))) = replicate 40 (CHR ''b''))"
proof -
  let ?w = "example_world [long_note, short_note] []"
  have h: "\<forall>n\<in>set (notes ?w). opens (display_path (name n)) ?w"
    by (simp add: opens_def read_file_def long_note_def short_note_def example_eval)
  have n: "notes ?w = [long_note, short_note]" "stdout ?w = []"
    by (simp_all add: example_world_def)
  from display_notes_preview [OF h] obtain rows where
    d: "display_notes ?w = (Done (), ?w\<lparr>stdout := stdout ?w @ [Table rows]\<rparr>)" and
    p: "\<forall>k<length (notes ?w).
          (length (content (notes ?w ! k)) > 50 \<longrightarrow>
             snd (snd (snd (rows ! k))) = take 50 (content (notes ?w ! k)) @ ''...'') \<and>
          (length (content (notes ?w ! k)) \<le> 50 \<longrightarrow>
             snd (snd (snd (rows ! k))) = content (notes ?w ! k))"
    by blast
  from p [unfolded n, rule_format, of 0]
  have p0: "snd (snd (snd (rows ! 0))) = replicate 50 (CHR ''a'') @ ''...''"
    by (simp add: long_note_def example_note_def)
  from p [unfolded n, rule_format, of 1]
  have p1: "snd (snd (snd (rows ! 1))) = replicate 40 (CHR ''b'')"
    by (simp add: short_note_def example_note_def)
  from d have "display_notes ?w = (Done (), ?w\<lparr>stdout := [Table rows]\<rparr>)"
    by (simp add: n)
  with h p0 p1 show ?thesis unfolding n by auto
qed

section \<open>Writing a file\<close>

lemma same_dirs_write: "fs loc \<noteq> Some Dir \<Longrightarrow> same_dirs fs (fs(loc \<mapsto> File c))"
  by (simp add: same_dirs_def)

lemma keeps_text_write: "fs loc \<noteq> Some Dir \<Longrightarrow> keeps_text fs (fs(loc \<mapsto> File c))"
  by (simp add: keeps_text_def same_dirs_def)

lemma can_writeD:
  assumes "can_write p w"
  obtains loc where "locate p w = Inr loc" and "loc \<noteq> []" and "files w loc \<noteq> Some Dir"
    and "refuses w loc = None"
proof -
  from assms obtain loc where l: "locate p w = Inr loc" and n: "node_at w loc \<noteq> Some Dir"
    and r: "refuses w loc = None"
    by (auto simp: can_write_def split: sum.splits)
  from n have "loc \<noteq> []" "files w loc \<noteq> Some Dir" by (auto simp: node_at_def split: if_splits)
  with l r that show thesis by blast
qed

lemma write_file_Done:
  assumes "locate p w = Inr loc" and "loc \<noteq> []" and "files w loc \<noteq> Some Dir"
    and "refuses w loc = None"
  shows "write_file p c w = (Done (), w\<lparr>files := (files w)(loc \<mapsto> File c)\<rparr>)"
  using assms by (simp add: write_file_def node_at_def)

lemma file_content_at:
  assumes "locate p w = Inr loc" and "loc \<noteq> []"
  shows "file_content p w = (case files w loc of Some (File c) \<Rightarrow> Some c | _ \<Rightarrow> None)"
  using assms by (simp add: file_content_def node_at_def)

lemma Note_save_fields [simp]:
  "map filepath (notes (snd (Note_save i w))) = map filepath (notes w)"
  "cwd (snd (Note_save i w)) = cwd w"
  "script_dir (snd (Note_save i w)) = script_dir w"
  "refuses (snd (Note_save i w)) = refuses w"
  "editor (snd (Note_save i w)) = editor w"
  "stdin (snd (Note_save i w)) = stdin w"
  "stdout (snd (Note_save i w)) = stdout w"
  by (simp_all add: Note_save_def write_file_def datetime_now_def Let_def map_update_same
      split: sum.splits option.splits)

lemma Note_save_Done:
  assumes "locate (filepath (notes w ! i)) w = Inr loc" and "loc \<noteq> []"
    and "files w loc \<noteq> Some Dir" and "refuses w loc = None"
  shows "fst (Note_save i w) = Done ()"
    and "files (snd (Note_save i w)) = (files w)(loc \<mapsto> File (content (notes w ! i)))"
    and "notes (snd (Note_save i w)) = (notes w)[i := (notes w ! i)\<lparr>edited_time := clock w\<rparr>]"
    and "clock (snd (Note_save i w)) = Suc (clock w)"
  by (simp_all add: Note_save_def write_file_Done [OF assms] datetime_now_def Let_def)

section \<open>Creating a note\<close>

text \<open>
  C6. When a note of that name exists (compared in lower case), \<open>create_note\<close>
  prints the conflict message and returns; the collection, every note in it, the
  files, the clock and the unread input are as before.
\<close>

theorem create_note_existing:
  "note_exists nm w \<Longrightarrow>
   create_note nm w = (Done (), w\<lparr>stdout := stdout w @ [Print conflict_message]\<rparr>)"
  by (simp add: create_note_def print_def)

theorem create_note_existing_witness:
  "note_exists ''foo'' (example_world [example_note ''Foo'' ''hello''] []) \<and>
   create_note ''foo'' (example_world [example_note ''Foo'' ''hello''] []) =
     (Done (), (example_world [example_note ''Foo'' ''hello''] [])
                 \<lparr>stdout := [Print conflict_message]\<rparr>)"
proof -
  let ?w = "example_world [example_note ''Foo'' ''hello''] []"
  have h: "note_exists ''foo'' ?w"
    by (simp add: note_exists_def example_world_def example_note_def lower_eval)
  from create_note_existing [OF h] h show ?thesis
    by (simp add: example_world_def)
qed

lemma path_join_relative:
  "relative nm \<Longrightarrow> path_join (notes_folder w) (txt_name nm) = note_path w nm"
  by (rule path_join_note_path) (auto simp: relative_def txt_name_def hd_append)

lemma create_note_saved:
  fixes w :: world and nm c :: string and rest :: "string list"
  defines "w4 \<equiv> snd (Note_save (length (notes w))
     (w\<lparr>stdout := stdout w @ [Prompt ''Enter the content of your note (press Enter to finish): ''],
        stdin := rest, clock := Suc (clock w),
        notes := notes w @ [\<lparr>name = nm, content = c, edited_time = clock w,
                              filepath = note_path w nm\<rparr>]\<rparr>))"
  assumes ne: "\<not> note_exists nm w" and s: "stdin w = c # rest" and r: "relative nm"
    and l: "locate (note_path w nm) w = Inr loc" "loc \<noteq> []" "files w loc \<noteq> Some Dir"
           "refuses w loc = None"
  shows "create_note nm w = reset_screen w4"
    and "notes w4 = notes w @ [\<lparr>name = nm, content = c, edited_time = Suc (clock w),
                                 filepath = note_path w nm\<rparr>]"
    and "files w4 = (files w)(loc \<mapsto> File c)"
    and "cwd w4 = cwd w" and "script_dir w4 = script_dir w" and "refuses w4 = refuses w"
    and "editor w4 = editor w"
    and "notes (snd (create_note nm w)) =
           notes w @ [\<lparr>name = nm, content = c, edited_time = Suc (clock w),
                       filepath = note_path w nm\<rparr>]"
    and "files (snd (create_note nm w)) = (files w)(loc \<mapsto> File c)"
    and "cwd (snd (create_note nm w)) = cwd w"
proof -
  let ?n = "\<lparr>name = nm, content = c, edited_time = clock w, filepath = note_path w nm\<rparr>"
  let ?w3 = "w\<lparr>stdout := stdout w @ [Prompt ''Enter the content of your note (press Enter to finish): ''],
               stdin := rest, clock := Suc (clock w), notes := notes w @ [?n]\<rparr>"
  have c: "create_note nm w =
             (case Note_save (length (notes w)) ?w3 of
                (Raised e, w4) \<Rightarrow> (Raised e, w4)
              | (Done u, w4) \<Rightarrow> reset_screen w4)"
    using ne s
    by (simp add: create_note_def input_def emit_def Note_init_def datetime_now_def Let_def
        path_join_relative [OF r])
  have n3: "notes ?w3 ! length (notes w) = ?n" by simp
  have l3: "locate (filepath (notes ?w3 ! length (notes w))) ?w3 = Inr loc"
    unfolding n3 using l(1) by simp
  have f3: "files ?w3 loc \<noteq> Some Dir" "refuses ?w3 loc = None" using l by simp_all
  note sv = Note_save_Done [OF l3 l(2) f3]
  obtain r4 v4 where p: "Note_save (length (notes w)) ?w3 = (r4, v4)" by force
  with sv(1) have r4: "r4 = Done ()" and v4: "v4 = w4" by (simp_all add: w4_def)
  show cr: "create_note nm w = reset_screen w4" unfolding c p r4 v4 by simp
  from sv(3) show n4: "notes w4 = notes w @ [\<lparr>name = nm, content = c,
                          edited_time = Suc (clock w), filepath = note_path w nm\<rparr>]"
    by (simp add: w4_def)
  from sv(2) show f4: "files w4 = (files w)(loc \<mapsto> File c)"
    by (simp add: w4_def)
  show c4: "cwd w4 = cwd w" and "script_dir w4 = script_dir w" and "refuses w4 = refuses w"
    and "editor w4 = editor w"
    unfolding w4_def by simp_all
  show "notes (snd (create_note nm w)) =
           notes w @ [\<lparr>name = nm, content = c, edited_time = Suc (clock w),
                       filepath = note_path w nm\<rparr>]"
    unfolding cr by (simp add: n4)
  show "files (snd (create_note nm w)) = (files w)(loc \<mapsto> File c)"
    unfolding cr by (simp add: f4)
  show "cwd (snd (create_note nm w)) = cwd w"
    unfolding cr by (simp add: c4)
qed

text \<open>
  C1. The name is relative and not in the collection, its file
  \<open><notes_folder>/<name>.txt\<close> can be written, and the user types the content \<open>c\<close>:
  after \<open>create_note\<close>, \<open>get_note\<close> finds a note of that name whose content is \<open>c\<close>
  and whose path is that file, and the file holds exactly \<open>c\<close>.
\<close>

theorem create_note_then_get_note:
  assumes "\<not> note_exists nm w" and "stdin w = c # rest"
    and "relative nm" and "can_write (note_path w nm) w"
  shows "\<exists>i. get_note nm (snd (create_note nm w)) = Some i \<and>
             name (notes (snd (create_note nm w)) ! i) = nm \<and>
             content (notes (snd (create_note nm w)) ! i) = c \<and>
             filepath (notes (snd (create_note nm w)) ! i) = note_path w nm \<and>
             file_content (note_path w nm) (snd (create_note nm w)) = Some c"
proof -
  let ?w' = "snd (create_note nm w)"
  from assms(4) obtain loc where l: "locate (note_path w nm) w = Inr loc" "loc \<noteq> []"
    "files w loc \<noteq> Some Dir" "refuses w loc = None"
    by (rule can_writeD)
  note cs = create_note_saved [OF assms(1-3) l]
  from assms(1) have g: "get_note nm ?w' = Some (length (notes w))"
    by (simp add: get_note_def cs(8) note_exists_def first_match_append_new)
  have "same_dirs (files w) (files ?w')"
    unfolding cs(9) using l(3) by (rule same_dirs_write [of "files w" loc])
  from locate_same_dirs [OF this cs(10)] l(1)
  have "locate (note_path w nm) ?w' = Inr loc" by simp
  from file_content_at [OF this l(2)]
  have "file_content (note_path w nm) ?w' = Some c" by (simp add: cs(9))
  with g show ?thesis by (simp add: cs(8))
qed

theorem create_note_then_get_note_witness:
  "\<not> note_exists ''todo'' (example_world [] [''buy milk'']) \<and>
   stdin (example_world [] [''buy milk'']) = [''buy milk''] \<and>
   relative ''todo'' \<and>
   can_write (note_path (example_world [] [''buy milk'']) ''todo'') (example_world [] [''buy milk'']) \<and>
   (\<exists>i. get_note ''todo'' (snd (create_note ''todo'' (example_world [] [''buy milk'']))) = Some i \<and>
        content (notes (snd (create_note ''todo'' (example_world [] [''buy milk'']))) ! i) =
          ''buy milk'' \<and>
        file_content (note_path (example_world [] [''buy milk'']) ''todo'')
          (snd (create_note ''todo'' (example_world [] [''buy milk'']))) = Some ''buy milk'')"
proof -
  let ?w = "example_world [] [''buy milk'']"
  have h: "\<not> note_exists ''todo'' ?w" by (simp add: note_exists_def example_world_def)
  have s: "stdin ?w = [''buy milk'']" by (simp add: example_world_def)
  have r: "relative ''todo''" by (simp add: relative_def)
  have c: "can_write (note_path ?w ''todo'') ?w"
    by (simp add: can_write_def example_eval)
  from create_note_then_get_note [OF h s r c] h s r c show ?thesis
    by blast
qed

text \<open>
  C1 does not hold for every name. For the name \<open>a/b\<close> the path of the note leads
  through a directory \<open>a\<close> that the notes folder does not have: the note is in the
  collection when \<open>Note.save\<close> raises \<open>FileNotFoundError\<close>, which leaves
  \<open>create_note\<close>, and no file holds the content.
\<close>

theorem create_note_no_directory:
  "\<not> note_exists ''a/b'' (example_world [] [''buy milk'']) \<and>
   fst (create_note ''a/b'' (example_world [] [''buy milk''])) =
     Raised (FileNotFoundError ''/home/user/notes/a/b.txt'') \<and>
   get_note ''a/b'' (snd (create_note ''a/b'' (example_world [] [''buy milk'']))) = Some 0 \<and>
   file_content (note_path (example_world [] [''buy milk'']) ''a/b'')
     (snd (create_note ''a/b'' (example_world [] [''buy milk'']))) = None"
  by (simp add: create_note_def note_exists_def get_note_def input_def emit_def Note_init_def
      Note_save_def write_file_def datetime_now_def file_content_def example_eval)

section \<open>Deleting a note\<close>

lemma delete_note_never_True: "fst (delete_note nm w) \<noteq> Done True"
  by (auto simp: delete_note_def Note_delete_def split: option.splits prod.splits result.splits)

lemma delete_note_declined:
  assumes "get_note nm w = Some i" and "stdin w = l # ls" and "lower l \<noteq> ''yes''"
  shows "delete_note nm w =
           (Done False, w\<lparr>stdin := ls,
                           stdout := stdout w @ [Prompt (delete_prompt nm),
                                                 Print ''Deletion cancelled.'']\<rparr>)"
  using assms by (simp add: delete_note_def input_def emit_def print_def)

lemma delete_note_absent:
  assumes "get_note nm w = None"
  shows "fst (delete_note nm w) \<noteq> Done True \<and>
         notes (snd (delete_note nm w)) = notes w \<and> files (snd (delete_note nm w)) = files w"
proof -
  obtain r w1 where r: "reset_screen w = (r, w1)" by force
  with reset_screen_fields(2) [of w] have "files w1 = files w" by simp
  with assms r have "fst (delete_note nm w) \<noteq> Done True \<and> files (snd (delete_note nm w)) = files w"
    by (cases r) (simp_all add: delete_note_def)
  then show ?thesis by simp
qed

text \<open>
  C7. When the user declines or the note is absent, \<open>delete_note\<close> does not return
  \<open>True\<close> and leaves notes and files alone, as the two lemmas above say. When the
  note \<open>x\<close> exists and the user answers \<open>yes\<close>, \<open>delete_note\<close> does not return
  \<open>True\<close> either: the call \<open>note.delete()\<close> raises \<open>AttributeError\<close>, which leaves
  \<open>delete_note\<close>; the note and its file stay.
\<close>

theorem delete_note_confirmed_raises:
  "delete_note ''x'' (example_world [example_note ''x'' ''hello''] [''yes'']) =
     (Raised (AttributeError (CHR 0x27 # ''Note'' @ [CHR 0x27] @ '' object has no attribute ''
                               @ [CHR 0x27] @ ''delete'' @ [CHR 0x27])),
      (example_world [example_note ''x'' ''hello''] [''yes''])
         \<lparr>stdin := [], stdout := [Prompt (delete_prompt ''x'')]\<rparr>)"
  by (simp add: delete_note_def get_note_def Note_delete_def input_def emit_def
      example_eval lower_eval)

text \<open>
  C10. The note exists and the user's answer is not \<open>yes\<close> (in any case): the
  handler of the \<open>delete\<close> command prints \<open>Deletion cancelled.\<close> and then
  \<open>Note not found.\<close>, and changes nothing else but the line it read.
\<close>

theorem CommandProcessor_delete_declined:
  assumes "get_note nm w = Some i" and "stdin w = l # ls" and "lower l \<noteq> ''yes''"
  shows "CommandProcessor_delete (nm # args) w =
           (Done (), w\<lparr>stdin := ls,
                        stdout := stdout w @ [Prompt (delete_prompt nm),
                                              Print ''Deletion cancelled.'',
                                              Print ''Note not found.'']\<rparr>)"
  using assms
  by (simp add: CommandProcessor_delete_def delete_note_def input_def emit_def print_def)

theorem CommandProcessor_delete_declined_witness:
  "get_note ''x'' (example_world [example_note ''x'' ''hello''] [''no'']) = Some 0 \<and>
   stdin (example_world [example_note ''x'' ''hello''] [''no'']) = [''no''] \<and>
   lower ''no'' \<noteq> ''yes'' \<and>
   CommandProcessor_delete [''x''] (example_world [example_note ''x'' ''hello''] [''no'']) =
     (Done (), (example_world [example_note ''x'' ''hello''] [''no''])
                 \<lparr>stdin := [],
                  stdout := [Prompt (delete_prompt ''x''),
                             Print ''Deletion cancelled.'',
                             Print ''Note not found.'']\<rparr>)"
proof -
  let ?w = "example_world [example_note ''x'' ''hello''] [''no'']"
  have g: "get_note ''x'' ?w = Some 0"
    by (simp add: get_note_def example_world_def example_note_def)
  have s: "stdin ?w = [''no'']" by (simp add: example_world_def)
  have l: "lower ''no'' \<noteq> ''yes''" by (simp add: lower_eval)
  from CommandProcessor_delete_declined [OF g s l, of "[]"] g s l show ?thesis
    by (simp add: example_world_def)
qed

section \<open>Uniqueness of names\<close>

lemma load_loop_names:
  "load_loop listing acc w = (Done ns, w') \<Longrightarrow>
   map name ns = map name acc @ map splitext_root (txt_entries listing)"
proof (induction listing arbitrary: acc w)
  case Nil
  then show ?case by (simp add: txt_entries_def)
next
  case (Cons f fs)
  show ?case
  proof (cases "endswith f ''.txt''")
    case False
    with Cons show ?thesis by (simp add: txt_entries_def)
  next
    case True
    with Cons.prems obtain c where
      c: "read_file (path_join (notes_folder w) f) w = Done c" and
      l: "load_loop fs (acc @ [fst (Note_init (splitext_root f) (Some c) w)])
            (snd (Note_init (splitext_root f) (Some c) w)) = (Done ns, w')"
      by (auto split: result.splits prod.splits)
    from Cons.IH [OF l] True show ?thesis by (simp add: txt_entries_def)
  qed
qed

lemma Notebook_init_names:
  "Notebook_init listing w = (Done (), w') \<Longrightarrow>
   map name (notes w') = map splitext_root (txt_entries listing)"
  by (auto simp: Notebook_init_def load_notes_def split: prod.splits result.splits
      dest: load_loop_names)

lemma unique_names_cong:
  "map name (notes w') = map name (notes w) \<Longrightarrow> unique_names w' = unique_names w"
proof -
  assume "map name (notes w') = map name (notes w)"
  then have "map lower (map name (notes w')) = map lower (map name (notes w))" by simp
  then show ?thesis by (simp add: unique_names_def comp_def)
qed

lemma then_reset_names:
  "map name (notes (snd (case p of (Raised e, v) \<Rightarrow> (Raised e, v)
                                 | (Done u, v) \<Rightarrow> reset_screen v))) = map name (notes (snd p))"
proof (cases p)
  case (Pair r v)
  then show ?thesis by (cases r) simp_all
qed

lemma create_note_names:
  "map name (notes (snd (create_note nm w))) =
     (if note_exists nm w \<or> stdin w = [] then map name (notes w) else map name (notes w) @ [nm])"
proof (cases "note_exists nm w")
  case True
  then show ?thesis by (simp add: create_note_def)
next
  case False
  show ?thesis
  proof (cases "stdin w")
    case Nil
    with False show ?thesis by (simp add: create_note_def input_def emit_def)
  next
    case (Cons c rest)
    with False show ?thesis
      by (simp add: create_note_def input_def emit_def Note_init_def datetime_now_def Let_def
          then_reset_names)
  qed
qed

lemma create_note_unique: "unique_names w \<Longrightarrow> unique_names (snd (create_note nm w))"
proof -
  assume u: "unique_names w"
  have "map lower (map name (notes (snd (create_note nm w)))) =
          (if note_exists nm w \<or> stdin w = [] then map lower (map name (notes w))
           else map lower (map name (notes w)) @ [lower nm])"
    unfolding create_note_names by simp
  with u show ?thesis
    by (auto simp: unique_names_def comp_def note_exists_def list_ex_iff split: if_splits)
qed

lemma rename_note_names:
  "map name (notes (snd (rename_note old new w))) =
     (if lower old \<noteq> lower new \<and> note_exists new w then map name (notes w)
      else case get_note old w of
             None \<Rightarrow> map name (notes w)
           | Some i \<Rightarrow> (map name (notes w))[i := new])"
proof -
  have reset: "map name (notes (snd (reset_screen v))) = map name (notes v)" for v by simp
  have step: "map name (notes (snd (case os_rename a b v of
                  (Raised e, w2) \<Rightarrow> (Raised e, w2)
                | (Done u, w2) \<Rightarrow>
                    (case Note_save i w2 of
                       (Raised e, w3) \<Rightarrow> (Raised e, w3)
                     | (Done u, w3) \<Rightarrow>
                         (case reset_screen w3 of
                            (Raised e, w4) \<Rightarrow> (Raised e, w4)
                          | (Done u, w4) \<Rightarrow> (Done (), print s w4)))))) = map name (notes v)"
    for a b v i s
  proof (cases "os_rename a b v")
    case (Pair r w2)
    from Pair have n2: "notes w2 = notes v" using os_rename_fields(1) [of a b v] by simp
    show ?thesis
    proof (cases r)
      case (Raised e)
      with Pair n2 show ?thesis by simp
    next
      case (Done u)
      obtain r3 w3 where r3: "Note_save i w2 = (r3, w3)" by force
      from Note_save_names [of i w2] r3 have n3: "map name (notes w3) = map name (notes w2)"
        by simp
      show ?thesis
      proof (cases r3)
        case (Raised e)
        with Pair Done r3 n2 n3 show ?thesis by simp
      next
        case d3: (Done u3)
        obtain r4 w4 where r4: "reset_screen w3 = (r4, w4)" by force
        from reset [of w3] r4 have "map name (notes w4) = map name (notes w3)" by simp
        with Pair Done r3 d3 r4 n2 n3 show ?thesis by (cases r4) simp_all
      qed
    qed
  qed
  show ?thesis
  proof (cases "lower old \<noteq> lower new \<and> note_exists new w")
    case True
    then show ?thesis by (simp add: rename_note_def)
  next
    case False
    show ?thesis
    proof (cases "get_note old w")
      case None
      obtain r1 w1 where r1: "reset_screen w = (r1, w1)" by force
      from reset [of w] r1 have "map name (notes w1) = map name (notes w)" by simp
      with False None r1 show ?thesis by (cases r1) (simp_all add: rename_note_def)
    next
      case (Some i)
      show ?thesis
        unfolding rename_note_def if_not_P [OF False] Some option.case Let_def
        by (simp add: step map_update False Some del: reset_screen_fields)
    qed
  qed
qed

lemma unique_names_rename:
  assumes "unique_names w"
  shows "unique_names (snd (rename_note old new w))"
proof (cases "lower old \<noteq> lower new \<and> note_exists new w")
  case True
  with assms show ?thesis by (simp add: rename_note_def unique_names_def)
next
  case False
  show ?thesis
  proof (cases "get_note old w")
    case None
    with False rename_note_names [of old new w]
    have "map name (notes (snd (rename_note old new w))) = map name (notes w)" by auto
    from unique_names_cong [OF this] assms show ?thesis by simp
  next
    case (Some i)
    let ?ls = "map (\<lambda>n. lower (name n)) (notes w)"
    from Some have i: "i < length (notes w)" and li: "lower (name (notes w ! i)) = lower old"
      by (simp_all add: get_note_def first_match_Some)
    from False Some rename_note_names [of old new w]
    have "map name (notes (snd (rename_note old new w))) = (map name (notes w))[i := new]"
      by auto
    then have "map lower (map name (notes (snd (rename_note old new w)))) =
               map lower ((map name (notes w))[i := new])" by simp
    then have eq: "map (\<lambda>n. lower (name n)) (notes (snd (rename_note old new w))) = ?ls[i := lower new]"
      by (simp add: map_update comp_def)
    have "distinct (?ls[i := lower new])"
    proof (cases "lower old = lower new")
      case True
      with i li have "?ls[i := lower new] = ?ls" by (simp add: list_update_same_conv)
      with assms show ?thesis by (simp add: unique_names_def)
    next
      case neq: False
      with False have "\<not> note_exists new w" by simp
      then have "lower new \<notin> set ?ls" by (auto simp: note_exists_def list_ex_iff)
      with assms show ?thesis by (simp add: unique_names_def distinct_list_update)
    qed
    with eq show ?thesis by (simp add: unique_names_def)
  qed
qed

lemma unique_names_delete: "unique_names w \<Longrightarrow> unique_names (snd (delete_note nm w))"
  by (simp add: unique_names_def)

text \<open>
  C3. The notes that \<open>load_notes\<close> builds are named after the \<open>.txt\<close> entries of the
  directory, one note per entry, so their names are unique exactly when the lowered
  stems of these entries are. \<open>create_note\<close>, \<open>rename_note\<close> and \<open>delete_note\<close>
  keep the names unique, whatever their outcome.
\<close>

theorem unique_names_kept:
  "(Notebook_init listing w0 = (Done (), w1) \<longrightarrow>
      unique_names w1 = distinct (map (\<lambda>f. lower (splitext_root f)) (txt_entries listing))) \<and>
   (unique_names w \<longrightarrow>
      unique_names (snd (create_note nm w)) \<and>
      unique_names (snd (rename_note old new w)) \<and>
      unique_names (snd (delete_note nm w)))"
proof -
  have "unique_names w1 = distinct (map (\<lambda>f. lower (splitext_root f)) (txt_entries listing))"
    if "Notebook_init listing w0 = (Done (), w1)"
  proof -
    from Notebook_init_names [OF that]
    have "map lower (map name (notes w1)) = map lower (map splitext_root (txt_entries listing))"
      by simp
    then show ?thesis by (simp add: unique_names_def comp_def)
  qed
  then show ?thesis
    using create_note_unique unique_names_rename unique_names_delete by blast
qed

theorem unique_names_kept_witness:
  "Notebook_init [''a.txt'', ''B.txt'', ''c.md'']
     (example_disk [example_note ''a'' ''x'', example_note ''B'' ''y'']) =
     (Done (), (example_disk [example_note ''a'' ''x'', example_note ''B'' ''y''])
                 \<lparr>notes := [(example_note ''a'' ''x'')\<lparr>edited_time := 1\<rparr>,
                            (example_note ''B'' ''y'')\<lparr>edited_time := 2\<rparr>],
                  clock := 3\<rparr>) \<and>
   unique_names ((example_disk [example_note ''a'' ''x'', example_note ''B'' ''y''])
                 \<lparr>notes := [(example_note ''a'' ''x'')\<lparr>edited_time := 1\<rparr>,
                            (example_note ''B'' ''y'')\<lparr>edited_time := 2\<rparr>],
                  clock := 3\<rparr>) \<and>
   unique_names (example_world [example_note ''a'' ''x''] [''z'']) \<and>
   unique_names (snd (create_note ''b'' (example_world [example_note ''a'' ''x''] [''z'']))) \<and>
   unique_names (snd (rename_note ''a'' ''A'' (example_world [example_note ''a'' ''x''] [''z'']))) \<and>
   unique_names (snd (delete_note ''a'' (example_world [example_note ''a'' ''x''] [''z''])))"
proof -
  let ?d = "example_disk [example_note ''a'' ''x'', example_note ''B'' ''y'']"
  let ?w1 = "?d\<lparr>notes := [(example_note ''a'' ''x'')\<lparr>edited_time := 1\<rparr>,
                          (example_note ''B'' ''y'')\<lparr>edited_time := 2\<rparr>],
                clock := 3\<rparr>"
  let ?w = "example_world [example_note ''a'' ''x''] [''z'']"
  have l: "Notebook_init [''a.txt'', ''B.txt'', ''c.md''] ?d = (Done (), ?w1)"
    by (simp add: Notebook_init_def load_notes_def endswith_def splitext_root_def read_file_def
        Note_init_def datetime_now_def example_disk_def example_eval)
  have d: "distinct (map (\<lambda>f. lower (splitext_root f)) (txt_entries [''a.txt'', ''B.txt'', ''c.md'']))"
    by (simp add: txt_entries_def endswith_def splitext_root_def lower_eval)
  have u: "unique_names ?w"
    by (simp add: unique_names_def example_world_def)
  from unique_names_kept [of "[''a.txt'', ''B.txt'', ''c.md'']" ?d ?w1 ?w "''b''" "''a''" "''A''"] l d u
  have "unique_names ?w1" and "unique_names (snd (create_note ''b'' ?w))"
    and "unique_names (snd (rename_note ''a'' ''A'' ?w))"
    by simp_all
  moreover from unique_names_kept [of "[]" ?w ?w ?w "''a''" "''a''" "''A''"] u
  have "unique_names (snd (delete_note ''a'' ?w))" by simp
  ultimately show ?thesis using l u by simp
qed

text \<open>
  C3 does not hold right after loading. The directory holds \<open>Foo.txt\<close> and
  \<open>foo.txt\<close> (the file system tells the two names apart): \<open>load_notes\<close> builds a
  note for each, and the two names are equal in lower case.
\<close>

theorem load_notes_duplicate_names:
  "fst (Notebook_init [''Foo.txt'', ''foo.txt'']
          (example_disk [example_note ''Foo'' ''a'', example_note ''foo'' ''b''])) = Done () \<and>
   map name (notes (snd (Notebook_init [''Foo.txt'', ''foo.txt'']
          (example_disk [example_note ''Foo'' ''a'', example_note ''foo'' ''b''])))) =
        [''Foo'', ''foo''] \<and>
   \<not> unique_names (snd (Notebook_init [''Foo.txt'', ''foo.txt'']
          (example_disk [example_note ''Foo'' ''a'', example_note ''foo'' ''b''])))"
  by (simp add: Notebook_init_def load_notes_def endswith_def splitext_root_def read_file_def
      Note_init_def datetime_now_def unique_names_def example_disk_def example_eval lower_eval)

section \<open>Renaming a note\<close>

lemma first_match_unique:
  "distinct (map (\<lambda>n. lower (name n)) ns) \<Longrightarrow> j < length ns \<Longrightarrow>
   lower (name (ns ! j)) = lower nm \<Longrightarrow> first_match nm ns = Some j"
proof (induction ns arbitrary: j)
  case Nil
  then show ?case by simp
next
  case (Cons n ns)
  show ?case
  proof (cases j)
    case 0
    with Cons.prems show ?thesis by simp
  next
    case (Suc k)
    with Cons.prems have k: "k < length ns" and lk: "lower (name (ns ! k)) = lower nm" by simp_all
    from k have "lower (name (ns ! k)) \<in> set (map (\<lambda>n. lower (name n)) ns)"
      by (simp add: image_iff) (metis nth_mem)
    with Cons.prems(1) have "lower (name n) \<noteq> lower (name (ns ! k))" by auto
    with lk Cons.prems(1) Cons.IH [OF _ k lk] Suc show ?thesis by simp
  qed
qed

lemma same_dirs_move:
  "fs ls = Some nd \<Longrightarrow> nd \<noteq> Dir \<Longrightarrow> fs ld \<noteq> Some Dir \<Longrightarrow>
   same_dirs fs ((fs(ls := None))(ld \<mapsto> nd))"
  by (auto simp: same_dirs_def)

lemma same_dirs_moved:
  "fs ls \<noteq> Some Dir \<Longrightarrow> fs ld \<noteq> Some Dir \<Longrightarrow>
   same_dirs fs ((fs(ls := None))(ld \<mapsto> File c))"
  by (auto simp: same_dirs_def)

lemma os_rename_file:
  assumes "locate src w = Inr ls" and "ls \<noteq> []" and "files w ls = Some nd" and "nd \<noteq> Dir"
    and "refuses w ls = None"
    and "locate dst w = Inr ld" and "ld \<noteq> []" and "files w ld \<noteq> Some Dir"
    and "refuses w ld = None"
  shows "fst (os_rename src dst w) = Done ()"
    and "files (snd (os_rename src dst w)) =
           (if ls = ld then files w else ((files w)(ls := None))(ld \<mapsto> nd))"
  using assms by (simp_all add: os_rename_def node_at_def refusal_def)

lemma rename_note_found:
  fixes w :: world and i :: nat and new :: string
  defines "w1 \<equiv> w\<lparr>notes := (notes w)[i := (notes w ! i)\<lparr>name := new,
                         filepath := path_join (notes_folder w) (txt_name new)\<rparr>]\<rparr>"
  defines "w3 \<equiv> snd (Note_save i (snd (os_rename (filepath (notes w ! i))
                         (path_join (notes_folder w) (txt_name new)) w1)))"
  assumes nc: "\<not> (lower old \<noteq> lower new \<and> note_exists new w)"
    and g: "get_note old w = Some i"
    and src: "locate (filepath (notes w ! i)) w = Inr ls" "ls \<noteq> []" "files w ls = Some nd"
             "nd \<noteq> Dir" "refuses w ls = None"
    and dst: "locate (path_join (notes_folder w) (txt_name new)) w = Inr ld" "ld \<noteq> []"
             "files w ld \<noteq> Some Dir" "refuses w ld = None"
  shows "rename_note old new w =
           (case reset_screen w3 of
              (Raised e, w4) \<Rightarrow> (Raised e, w4)
            | (Done u, w4) \<Rightarrow> (Done (), print ''Note renamed successfully.'' w4))"
    and "notes w3 = (notes w)[i := (notes w ! i)\<lparr>name := new,
                         filepath := path_join (notes_folder w) (txt_name new),
                         edited_time := clock w\<rparr>]"
    and "files w3 = ((files w)(ls := None))(ld \<mapsto> File (content (notes w ! i)))"
    and "notes (snd (rename_note old new w)) =
           (notes w)[i := (notes w ! i)\<lparr>name := new,
                         filepath := path_join (notes_folder w) (txt_name new),
                         edited_time := clock w\<rparr>]"
    and "files (snd (rename_note old new w)) =
           ((files w)(ls := None))(ld \<mapsto> File (content (notes w ! i)))"
    and "cwd (snd (rename_note old new w)) = cwd w"
    and "cwd w3 = cwd w" and "script_dir w3 = script_dir w" and "refuses w3 = refuses w"
    and "editor w3 = editor w"
proof -
  let ?new = "path_join (notes_folder w) (txt_name new)"
  from g have i: "i < length (notes w)" by (simp add: get_note_def first_match_Some)
  obtain r2 w2 where o: "os_rename (filepath (notes w ! i)) ?new w1 = (r2, w2)" by force
  have l1: "locate (filepath (notes w ! i)) w1 = Inr ls" "locate ?new w1 = Inr ld"
    "files w1 ls = Some nd" "files w1 ld \<noteq> Some Dir" "refuses w1 ls = None"
    "refuses w1 ld = None"
    using src dst by (simp_all add: w1_def)
  note mv = os_rename_file [OF l1(1) src(2) l1(3) src(4) l1(5) l1(2) dst(2) l1(4) l1(6)]
  from mv(1) o have r2: "r2 = Done ()" by simp
  from mv(2) o have f2: "files w2 = (if ls = ld then files w
                                      else ((files w)(ls := None))(ld \<mapsto> nd))"
    by (simp add: w1_def)
  have k2: "notes w2 = notes w1" "cwd w2 = cwd w" "refuses w2 = refuses w" "clock w2 = clock w"
    using os_rename_fields [of "filepath (notes w ! i)" ?new w1, unfolded o snd_conv]
    by (simp_all add: w1_def)
  from i have n2: "notes w2 ! i = (notes w ! i)\<lparr>name := new, filepath := ?new\<rparr>"
    by (simp add: k2(1) w1_def)
  have sd: "same_dirs (files w) (files w2)"
  proof (cases "ls = ld")
    case True
    then show ?thesis by (simp add: f2)
  next
    case False
    with same_dirs_move [OF src(3,4) dst(3)] show ?thesis by (simp add: f2)
  qed
  from locate_same_dirs [OF sd k2(2)] dst(1) have l2: "locate ?new w2 = Inr ld" by simp
  then have l2': "locate (filepath (notes w2 ! i)) w2 = Inr ld" by (simp add: n2)
  have d2: "files w2 ld \<noteq> Some Dir" using src(4) dst(3) by (simp add: f2)
  have q2: "refuses w2 ld = None" using dst(4) by (simp add: k2(3))
  note sv = Note_save_Done [OF l2' dst(2) d2 q2]
  have w3: "w3 = snd (Note_save i w2)" by (simp add: w3_def o)
  obtain r3 v3 where p: "Note_save i w2 = (r3, v3)" by force
  with sv(1) w3 have r3: "r3 = Done ()" and v3: "v3 = w3" by simp_all
  show r: "rename_note old new w =
           (case reset_screen w3 of
              (Raised e, w4) \<Rightarrow> (Raised e, w4)
            | (Done u, w4) \<Rightarrow> (Done (), print ''Note renamed successfully.'' w4))"
    unfolding rename_note_def if_not_P [OF nc] g option.case Let_def
    using o [unfolded w1_def] p by (simp add: r2 r3 v3)
  show n3: "notes w3 = (notes w)[i := (notes w ! i)\<lparr>name := new, filepath := ?new,
                                                       edited_time := clock w\<rparr>]"
    unfolding w3 sv(3) using i by (simp add: n2 k2 w1_def)
  show f3: "files w3 = ((files w)(ls := None))(ld \<mapsto> File (content (notes w ! i)))"
    unfolding w3 sv(2) by (simp add: n2 f2)
  show c3: "cwd w3 = cwd w" unfolding w3 by (simp add: k2)
  show "script_dir w3 = script_dir w" "refuses w3 = refuses w" "editor w3 = editor w"
    unfolding w3_def w1_def by simp_all
  show "notes (snd (rename_note old new w)) =
           (notes w)[i := (notes w ! i)\<lparr>name := new, filepath := ?new,
                                           edited_time := clock w\<rparr>]"
    unfolding r by (simp add: n3)
  show "files (snd (rename_note old new w)) =
           ((files w)(ls := None))(ld \<mapsto> File (content (notes w ! i)))"
    unfolding r by (simp add: f3)
  show "cwd (snd (rename_note old new w)) = cwd w"
    unfolding r by (simp add: c3)
qed

lemma then_print_stdout:
  assumes "s \<noteq> conflict_message"
  shows "\<exists>es. stdout (snd (case reset_screen v of
                              (Raised e, w3) \<Rightarrow> (Raised e, w3)
                            | (Done u, w3) \<Rightarrow> (Done (), print s w3))) = stdout v @ es \<and>
              Print conflict_message \<notin> set es"
  using assms
  by (auto simp: reset_screen_eq print_def help_hint_def conflict_message_def
      split: result.splits)

lemma rename_note_stdout:
  assumes nc: "\<not> (lower old \<noteq> lower new \<and> note_exists new w)"
  shows "\<exists>es. stdout (snd (rename_note old new w)) = stdout w @ es \<and>
              Print conflict_message \<notin> set es"
proof (cases "get_note old w")
  case None
  have "''Note not found.'' \<noteq> conflict_message" by (simp add: conflict_message_def)
  from then_print_stdout [OF this, of w] show ?thesis
    unfolding rename_note_def if_not_P [OF nc] None option.case .
next
  case (Some i)
  let ?new = "path_join (notes_folder w) (txt_name new)"
  let ?v = "w\<lparr>notes := (notes w)[i := (notes w ! i)\<lparr>name := new, filepath := ?new\<rparr>]\<rparr>"
  have m: "''Note renamed successfully.'' \<noteq> conflict_message"
    by (simp add: conflict_message_def)
  obtain r2 w2 where o: "os_rename (filepath (notes w ! i)) ?new ?v = (r2, w2)" by force
  from os_rename_fields(7) [of "filepath (notes w ! i)" ?new ?v] o
  have s2: "stdout w2 = stdout w" by simp
  obtain r3 w3 where p: "Note_save i w2 = (r3, w3)" by force
  from Note_save_fields(7) [of i w2] p have s3: "stdout w3 = stdout w" by (simp add: s2)
  have r: "rename_note old new w =
     (case r2 of
        Raised e \<Rightarrow> (Raised e, w2)
      | Done u \<Rightarrow>
          (case r3 of
             Raised e \<Rightarrow> (Raised e, w3)
           | Done u \<Rightarrow>
               (case reset_screen w3 of
                  (Raised e, w4) \<Rightarrow> (Raised e, w4)
                | (Done u, w4) \<Rightarrow> (Done (), print ''Note renamed successfully.'' w4))))"
    unfolding rename_note_def if_not_P [OF nc] Some option.case Let_def o
    by (simp add: p split: result.splits)
  show ?thesis
  proof (cases r2)
    case (Raised e)
    then show ?thesis by (simp add: r s2)
  next
    case d2: (Done u)
    show ?thesis
    proof (cases r3)
      case (Raised e)
      with d2 show ?thesis by (simp add: r s3)
    next
      case (Done u3)
      with d2 then_print_stdout [OF m, of w3] show ?thesis by (simp add: r s3)
    qed
  qed
qed

lemma note_path_plain:
  assumes "plain_name nm"
  shows "path_join (notes_folder w) (txt_name nm) = note_path w nm"
  by (rule path_join_note_path) (rule txt_name_plain(6) [OF assms])

lemma txt_name_inj: "txt_name a = txt_name b \<longleftrightarrow> a = b"
  by (simp add: txt_name_def)

text \<open>
  C4. The collection has unique names and holds a note named \<open>a\<close>, backed by its
  file; no note is named \<open>b\<close>; both names are plain, and the file of \<open>a\<close> can be
  moved to that of \<open>b\<close>. After \<open>rename_note a b\<close> there is no file for \<open>a\<close> in
  the notes folder, the file for \<open>b\<close> holds the note's content, and \<open>get_note a\<close>
  finds nothing.
\<close>

theorem rename_note_moves_file:
  assumes u: "unique_names w" and n: "n \<in> set (notes w)" and a: "name n = a"
    and b: "backed w n" and nb: "\<not> note_exists b w"
    and pa: "plain_name a" and pb: "plain_name b"
    and mv: "can_move (note_path w a) (note_path w b) w"
  shows "\<not> os_path_exists (note_path w a) (snd (rename_note a b w)) \<and>
         file_content (note_path w b) (snd (rename_note a b w)) = Some (content n) \<and>
         get_note a (snd (rename_note a b w)) = None"
proof -
  let ?w' = "snd (rename_note a b w)"
  let ?ls = "map (\<lambda>n. lower (name n)) (notes w)"
  from n obtain j where j: "j < length (notes w)" and nj: "notes w ! j = n"
    by (auto simp: in_set_conv_nth)
  from u j nj a have g: "get_note a w = Some j"
    by (simp add: get_note_def unique_names_def first_match_unique)
  from n a have "note_exists a w" by (auto simp: note_exists_def list_ex_iff)
  with nb have ab: "lower a \<noteq> lower b" by (auto simp: note_exists_def)
  then have neq: "a \<noteq> b" by auto
  from nb have nc: "\<not> (lower a \<noteq> lower b \<and> note_exists b w)" by simp
  from b have fp: "filepath (notes w ! j) = note_path w a"
    unfolding backed_def a nj by simp
  from mv have cs: "can_write (note_path w a) w" and ex: "os_path_exists (note_path w a) w"
    and cd: "can_write (note_path w b) w"
    by (simp_all add: can_move_def)
  from cs obtain ls where ls: "locate (note_path w a) w = Inr ls" "ls \<noteq> []"
    "files w ls \<noteq> Some Dir" "refuses w ls = None"
    by (rule can_writeD)
  from cd obtain ld where ld: "locate (note_path w b) w = Inr ld" "ld \<noteq> []"
    "files w ld \<noteq> Some Dir" "refuses w ld = None"
    by (rule can_writeD)
  from ex ls(1,2) obtain nd where nd: "files w ls = Some nd"
    by (auto simp: os_path_exists_def node_at_def)
  with ls(3) have ndd: "nd \<noteq> Dir" by auto
  from ls(1) ld(1) neq have dif: "ls \<noteq> ld"
    by (auto simp: locate_note_path [OF pa] locate_note_path [OF pb] txt_name_inj)
  note np = note_path_plain [OF pb, of w]
  note r = rename_note_found [OF nc g ls(1) [folded fp] ls(2) nd ndd ls(4)
                                ld(1) [folded np] ld(2-4)]
  from r(4) have nw: "notes ?w' = (notes w)[j := n\<lparr>name := b, filepath := note_path w b,
                                                      edited_time := clock w\<rparr>]"
    by (simp add: nj np)
  from r(5) have f: "files ?w' = ((files w)(ls := None))(ld \<mapsto> File (content n))"
    by (simp add: nj)
  note c = r(6)
  have sd: "same_dirs (files w) (files ?w')"
    unfolding f by (rule same_dirs_moved [OF ls(3) ld(3)])
  from locate_same_dirs [OF sd c] ls(1) ld(1)
  have l': "locate (note_path w a) ?w' = Inr ls" "locate (note_path w b) ?w' = Inr ld"
    by simp_all
  have 1: "\<not> os_path_exists (note_path w a) ?w'"
    using ls(2) dif by (simp add: os_path_exists_def l'(1) node_at_def f)
  have 2: "file_content (note_path w b) ?w' = Some (content n)"
    by (simp add: file_content_at [OF l'(2) ld(2)] f)
  have "\<not> list_ex (\<lambda>m. lower (name m) = lower a) (notes ?w')"
  proof
    assume "list_ex (\<lambda>m. lower (name m) = lower a) (notes ?w')"
    then obtain k where k: "k < length (notes w)"
      and lk: "lower (name (notes ?w' ! k)) = lower a"
      by (auto simp: list_ex_iff in_set_conv_nth nw)
    show False
    proof (cases "k = j")
      case True
      with lk j ab show False by (simp add: nw)
    next
      case False
      with lk j k have "?ls ! k = ?ls ! j" by (simp add: nw nj a)
      moreover from u have "distinct ?ls" by (simp add: unique_names_def)
      ultimately show False
        using nth_eq_iff_index_eq [of ?ls k j] j k False by simp
    qed
  qed
  then have 3: "get_note a ?w' = None" by (simp add: get_note_def first_match_None)
  from 1 2 3 show ?thesis by simp
qed

theorem rename_note_moves_file_witness:
  "unique_names (example_world [example_note ''a'' ''hello''] []) \<and>
   example_note ''a'' ''hello'' \<in> set (notes (example_world [example_note ''a'' ''hello''] [])) \<and>
   name (example_note ''a'' ''hello'') = ''a'' \<and>
   backed (example_world [example_note ''a'' ''hello''] []) (example_note ''a'' ''hello'') \<and>
   \<not> note_exists ''b'' (example_world [example_note ''a'' ''hello''] []) \<and>
   plain_name ''a'' \<and> plain_name ''b'' \<and>
   can_move (note_path (example_world [example_note ''a'' ''hello''] []) ''a'')
            (note_path (example_world [example_note ''a'' ''hello''] []) ''b'')
            (example_world [example_note ''a'' ''hello''] []) \<and>
   \<not> os_path_exists (note_path (example_world [example_note ''a'' ''hello''] []) ''a'')
        (snd (rename_note ''a'' ''b'' (example_world [example_note ''a'' ''hello''] []))) \<and>
   file_content (note_path (example_world [example_note ''a'' ''hello''] []) ''b'')
        (snd (rename_note ''a'' ''b'' (example_world [example_note ''a'' ''hello''] []))) =
     Some ''hello'' \<and>
   get_note ''a'' (snd (rename_note ''a'' ''b'' (example_world [example_note ''a'' ''hello''] []))) =
     None"
proof -
  let ?n = "example_note ''a'' ''hello''"
  let ?w = "example_world [?n] []"
  have u: "unique_names ?w" by (simp add: unique_names_def example_world_def)
  have m: "?n \<in> set (notes ?w)" by (simp add: example_world_def)
  have a: "name ?n = ''a''" by (simp add: example_note_def)
  have b: "backed ?w ?n" by (simp add: backed_def file_content_def example_eval)
  have nb: "\<not> note_exists ''b'' ?w"
    by (simp add: note_exists_def example_world_def example_note_def lower_eval)
  have p: "plain_name ''a''" "plain_name ''b''" by (simp_all add: plain_name_def)
  have mv: "can_move (note_path ?w ''a'') (note_path ?w ''b'') ?w"
    by (simp add: can_move_def can_write_def os_path_exists_def example_eval)
  have c: "content ?n = ''hello''" by (simp add: example_note_def)
  from rename_note_moves_file [OF u m a b nb p mv] u m a b nb p mv show ?thesis
    unfolding c by simp
qed

text \<open>
  C4 does not hold for every collection and every name. When the directory held
  \<open>Foo.txt\<close> and \<open>foo.txt\<close>, the collection holds the notes \<open>Foo\<close> and \<open>foo\<close>, and
  \<open>rename_note foo bar\<close> renames the first of them: the file \<open>foo.txt\<close> remains and
  \<open>get_note foo\<close> still finds a note. And for the new name \<open>b/c\<close> the new path
  leads through a directory that is not there: \<open>os.rename\<close> raises
  \<open>FileNotFoundError\<close>, the file of \<open>a\<close> remains and there is no file for \<open>b/c\<close>.
\<close>

theorem rename_note_leaves_file:
  "map name (notes (example_world [example_note ''Foo'' ''x'', example_note ''foo'' ''y''] [])) =
     [''Foo'', ''foo''] \<and>
   \<not> note_exists ''bar'' (example_world [example_note ''Foo'' ''x'', example_note ''foo'' ''y''] []) \<and>
   os_path_exists
     (note_path (example_world [example_note ''Foo'' ''x'', example_note ''foo'' ''y''] []) ''foo'')
     (snd (rename_note ''foo'' ''bar''
             (example_world [example_note ''Foo'' ''x'', example_note ''foo'' ''y''] []))) \<and>
   get_note ''foo''
     (snd (rename_note ''foo'' ''bar''
             (example_world [example_note ''Foo'' ''x'', example_note ''foo'' ''y''] []))) = Some 1 \<and>
   \<not> note_exists ''b/c'' (example_world [example_note ''a'' ''hello''] []) \<and>
   fst (rename_note ''a'' ''b/c'' (example_world [example_note ''a'' ''hello''] [])) =
     Raised (FileNotFoundError ''/home/user/notes/b/c.txt'') \<and>
   os_path_exists (note_path (example_world [example_note ''a'' ''hello''] []) ''a'')
     (snd (rename_note ''a'' ''b/c'' (example_world [example_note ''a'' ''hello''] []))) \<and>
   file_content (note_path (example_world [example_note ''a'' ''hello''] []) ''b/c'')
     (snd (rename_note ''a'' ''b/c'' (example_world [example_note ''a'' ''hello''] []))) = None"
proof -
  let ?w = "example_world [example_note ''Foo'' ''x'', example_note ''foo'' ''y''] []"
  let ?v = "example_world [example_note ''a'' ''hello''] []"
  have 1: "map name (notes ?w) = [''Foo'', ''foo'']"
    by (simp add: example_world_def example_note_def)
  have 2: "\<not> note_exists ''bar'' ?w"
    by (simp add: note_exists_def example_world_def example_note_def lower_eval)
  have 3: "os_path_exists (note_path ?w ''foo'') (snd (rename_note ''foo'' ''bar'' ?w))"
    by (simp add: rename_note_def note_exists_def get_note_def os_rename_def refusal_def
        Note_save_def write_file_def datetime_now_def os_path_exists_def
        example_eval lower_eval)
  have 4: "get_note ''foo'' (snd (rename_note ''foo'' ''bar'' ?w)) = Some 1"
    by (simp add: rename_note_def note_exists_def get_note_def os_rename_def refusal_def
        Note_save_def write_file_def datetime_now_def example_eval lower_eval)
  have 5: "\<not> note_exists ''b/c'' ?v"
    by (simp add: note_exists_def example_world_def example_note_def lower_eval)
  have 6: "fst (rename_note ''a'' ''b/c'' ?v) =
             Raised (FileNotFoundError ''/home/user/notes/b/c.txt'')"
    by (simp add: rename_note_def note_exists_def get_note_def os_rename_def Let_def
        example_eval lower_eval)
  have 7: "os_path_exists (note_path ?v ''a'') (snd (rename_note ''a'' ''b/c'' ?v))"
    by (simp add: rename_note_def note_exists_def get_note_def os_rename_def Let_def
        os_path_exists_def example_eval lower_eval)
  have 8: "file_content (note_path ?v ''b/c'') (snd (rename_note ''a'' ''b/c'' ?v)) = None"
    by (simp add: rename_note_def note_exists_def get_note_def os_rename_def Let_def
        file_content_def example_eval lower_eval)
  from 1 2 3 4 5 6 7 8 show ?thesis by simp
qed



section \<open>Commands return to the loop\<close>

lemma keeps_text_refl [simp]: "keeps_text fs fs"
  by (simp add: keeps_text_def)

lemma keeps_text_trans: "keeps_text a b \<Longrightarrow> keeps_text b c \<Longrightarrow> keeps_text a c"
  by (simp add: keeps_text_def same_dirs_def)

lemma keeps_text_same_dirs: "keeps_text a b \<Longrightarrow> same_dirs a b"
  by (simp add: keeps_text_def)

lemma file_content_Some:
  "file_content p w \<noteq> None \<longleftrightarrow>
   (\<exists>loc c. locate p w = Inr loc \<and> loc \<noteq> [] \<and> files w loc = Some (File c))"
  by (auto simp: file_content_def node_at_def split: sum.splits option.splits node.splits)

lemma can_write_iff:
  "can_write p w \<longleftrightarrow>
   (\<exists>loc. locate p w = Inr loc \<and> loc \<noteq> [] \<and> files w loc \<noteq> Some Dir \<and> refuses w loc = None)"
  by (auto simp: can_write_def node_at_def split: sum.splits)

lemma file_content_keeps:
  assumes "keeps_text (files w) (files w')" and "cwd w' = cwd w"
    and "file_content p w \<noteq> None"
  shows "file_content p w' \<noteq> None"
proof -
  from assms(3) obtain loc c where l: "locate p w = Inr loc" "loc \<noteq> []"
    "files w loc = Some (File c)"
    unfolding file_content_Some by blast
  from locate_same_dirs [OF keeps_text_same_dirs [OF assms(1)] assms(2)] l(1)
  have "locate p w' = Inr loc" by simp
  moreover from assms(1) l(3) obtain c' where "files w' loc = Some (File c')"
    unfolding keeps_text_def by blast
  ultimately show ?thesis unfolding file_content_Some using l(2) by blast
qed

lemma can_write_keeps:
  assumes "same_dirs (files w) (files w')" and "cwd w' = cwd w" and "refuses w' = refuses w"
    and "can_write p w"
  shows "can_write p w'"
proof -
  from assms(4) obtain loc where l: "locate p w = Inr loc" "loc \<noteq> []"
    "files w loc \<noteq> Some Dir" "refuses w loc = None"
    unfolding can_write_iff by blast
  from locate_same_dirs [OF assms(1,2)] l(1) have "locate p w' = Inr loc" by simp
  moreover from assms(1) l(3) have "files w' loc \<noteq> Some Dir" by (simp add: same_dirs_def)
  ultimately show ?thesis unfolding can_write_iff using l(2,4) assms(3) by auto
qed

lemma in_place_keeps:
  assumes "same_dirs (files w) (files w')" and "cwd w' = cwd w"
    and "script_dir w' = script_dir w" and "in_place w"
  shows "in_place w'"
  using assms(4)
  unfolding in_place_def dir_loc_same_dirs [OF assms(1,2)] notes_folder_eq [OF assms(3)] .

lemma on_disk_keeps:
  assumes "keeps_text (files w) (files w')" and "cwd w' = cwd w"
    and "script_dir w' = script_dir w" and "refuses w' = refuses w"
    and "name n' = name n" and "filepath n' = filepath n" and "on_disk w n"
  shows "on_disk w' n'"
proof -
  from assms(7) have p: "plain_name (name n)" and fp: "filepath n = note_path w (name n)"
    and fc: "file_content (filepath n) w \<noteq> None" and cw: "can_write (filepath n) w"
    unfolding on_disk_def by blast+
  from file_content_keeps [OF assms(1,2) fc]
  have 1: "file_content (filepath n) w' \<noteq> None" .
  from can_write_keeps [OF keeps_text_same_dirs [OF assms(1)] assms(2,4) cw]
  have 2: "can_write (filepath n) w'" .
  from p fp 1 2 show ?thesis
    unfolding on_disk_def assms(5,6) note_path_eq [OF assms(3)] by blast
qed

lemma mirrored_nth:
  assumes "mirrored w" and "k < length (notes w)"
  shows "on_disk w (notes w ! k)"
  using assms unfolding mirrored_def list_all_length by blast

lemma on_diskD:
  assumes i: "in_place w" and o: "on_disk w n"
  obtains D c where "dir_loc (notes_folder w) w = Some D" and "dir_loc ''notes'' w = Some D"
    and "locate (filepath n) w = Inr (D @ [txt_name (name n)])"
    and "files w (D @ [txt_name (name n)]) = Some (File c)"
    and "refuses w (D @ [txt_name (name n)]) = None"
proof -
  from i have "dir_loc (notes_folder w) w \<noteq> None"
    and e: "dir_loc (notes_folder w) w = dir_loc ''notes'' w"
    unfolding in_place_def by blast+
  then obtain D where D1: "dir_loc (notes_folder w) w = Some D" by blast
  with e have D2: "dir_loc ''notes'' w = Some D" by simp
  note D = D1 D2
  from o have p: "plain_name (name n)" and fp: "filepath n = note_path w (name n)"
    and fc: "file_content (filepath n) w \<noteq> None" and cw: "can_write (filepath n) w"
    unfolding on_disk_def by blast+
  from fc obtain loc c where l: "locate (filepath n) w = Inr loc" "files w loc = Some (File c)"
    unfolding file_content_Some by blast
  from l(1) D(1) have loc: "loc = D @ [txt_name (name n)]"
    by (simp add: fp locate_note_path [OF p])
  from cw l(1) have "refuses w loc = None" unfolding can_write_iff by auto
  with D l loc that show thesis by blast
qed

lemma mirrored_display:
  assumes "mirrored w"
  shows "\<forall>n\<in>set (notes w). opens (display_path (name n)) w"
proof
  fix n assume "n \<in> set (notes w)"
  with assms have i: "in_place w" and o: "on_disk w n"
    by (auto simp: mirrored_def list_all_iff)
  from o have p: "plain_name (name n)" by (simp add: on_disk_def)
  from on_diskD [OF i o] obtain D c where D: "dir_loc ''notes'' w = Some D"
    and f: "files w (D @ [txt_name (name n)]) = Some (File c)" by metis
  from D have "locate (display_path (name n)) w = Inr (D @ [txt_name (name n)])"
    by (simp add: locate_display_path [OF p])
  with f show "opens (display_path (name n)) w"
    by (simp add: opens_def read_file_def node_at_def)
qed

lemma reset_screen_Done:
  assumes "mirrored v"
  shows "reset_screen v = (Done (), snd (reset_screen v))"
proof -
  from display_rows_total [OF mirrored_display [OF assms]] obtain rows where
    "display_rows (Suc 0) (notes v) v = Done rows" by blast
  then show ?thesis by (simp add: reset_screen_eq)
qed

lemma mirrored_mono:
  assumes m: "mirrored w"
    and n: "map name (notes w') = map name (notes w)"
    and f: "map filepath (notes w') = map filepath (notes w)"
    and k: "keeps_text (files w) (files w')"
    and c: "cwd w' = cwd w" and sd: "script_dir w' = script_dir w"
    and rf: "refuses w' = refuses w"
  shows "mirrored w'"
proof -
  from n have len: "length (notes w') = length (notes w)" by (rule map_eq_imp_length_eq)
  have nk: "name (notes w' ! k) = name (notes w ! k)" if "k < length (notes w)" for k
    using that len nth_map [of k "notes w'" name] nth_map [of k "notes w" name] n by simp
  have fk: "filepath (notes w' ! k) = filepath (notes w ! k)" if "k < length (notes w)" for k
    using that len nth_map [of k "notes w'" filepath] nth_map [of k "notes w" filepath] f by simp
  from m have "in_place w'"
    by (simp add: mirrored_def in_place_keeps [OF keeps_text_same_dirs [OF k] c sd])
  moreover from m unique_names_cong [OF n] have "unique_names w'" by (simp add: mirrored_def)
  moreover have "list_all (on_disk w') (notes w')"
    unfolding list_all_length
  proof (intro allI impI)
    fix j assume "j < length (notes w')"
    then have j: "j < length (notes w)" by (simp add: len)
    from on_disk_keeps [OF k c sd rf nk [OF j] fk [OF j] mirrored_nth [OF m j]]
    show "on_disk w' (notes w' ! j)" .
  qed
  ultimately show ?thesis by (simp add: mirrored_def)
qed

lemma mirrored_reset_screen: "mirrored v \<Longrightarrow> mirrored (snd (reset_screen v))"
  by (rule mirrored_mono) simp_all

lemma mirrored_print: "mirrored v \<Longrightarrow> mirrored (print s v)"
  by (rule mirrored_mono) simp_all

lemma reset_then_print:
  assumes "mirrored v"
  shows "(case reset_screen v of (Raised e, w3) \<Rightarrow> (Raised e, w3)
                               | (Done u, w3) \<Rightarrow> (Done (), print s w3)) =
         (Done (), print s (snd (reset_screen v)))"
proof -
  obtain r w3 where r: "reset_screen v = (r, w3)" by force
  with reset_screen_Done [OF assms] have "r = Done ()" by simp
  with r show ?thesis by simp
qed

lemma reset_screen_returns:
  assumes "mirrored v"
  shows "\<exists>w'. reset_screen v = (Done (), w') \<and> mirrored w' \<and> editor w' = editor v"
  using reset_screen_Done [OF assms] mirrored_reset_screen [OF assms]
  by (intro exI [of _ "snd (reset_screen v)"]) simp

lemma plain_relative: "plain_name nm \<Longrightarrow> relative nm"
  by (cases nm) (auto simp: plain_name_def relative_def)

lemma create_note_returns:
  assumes m: "mirrored w" and s: "stdin w \<noteq> []"
    and p: "plain_name nm" and cw: "can_write (note_path w nm) w"
  shows "\<exists>w'. create_note nm w = (Done (), w') \<and> mirrored w' \<and> editor w' = editor w"
proof (cases "note_exists nm w")
  case True
  with mirrored_print [OF m] show ?thesis by (simp add: create_note_def)
next
  case False
  from s obtain c rest where cr: "stdin w = c # rest" by (cases "stdin w") auto
  from cw obtain loc where l: "locate (note_path w nm) w = Inr loc" "loc \<noteq> []"
    "files w loc \<noteq> Some Dir" "refuses w loc = None"
    by (rule can_writeD)
  let ?n = "\<lparr>name = nm, content = c, edited_time = Suc (clock w), filepath = note_path w nm\<rparr>"
  define w4 where "w4 = snd (Note_save (length (notes w))
     (w\<lparr>stdout := stdout w @ [Prompt ''Enter the content of your note (press Enter to finish): ''],
        stdin := rest, clock := Suc (clock w),
        notes := notes w @ [\<lparr>name = nm, content = c, edited_time = clock w,
                              filepath = note_path w nm\<rparr>]\<rparr>))"
  note cs = create_note_saved [OF False cr plain_relative [OF p] l, folded w4_def]
  have kt: "keeps_text (files w) (files w4)"
    unfolding cs(3) using l(3) by (rule keeps_text_write [of "files w" loc])
  note sd = keeps_text_same_dirs [OF kt]
  from m have ip: "in_place w" and u: "unique_names w" and al: "list_all (on_disk w) (notes w)"
    by (simp_all add: mirrored_def)
  from False have fresh: "lower nm \<notin> set (map (\<lambda>n. lower (name n)) (notes w))"
    by (auto simp: note_exists_def list_ex_iff)
  have 1: "in_place w4" by (rule in_place_keeps [OF sd cs(4,5) ip])
  from u fresh have 2: "unique_names w4" by (simp add: unique_names_def cs(2))
  have old: "list_all (on_disk w4) (notes w)"
    by (rule list.pred_mono_strong [OF al]) (rule on_disk_keeps [OF kt cs(4-6) refl refl])
  from locate_same_dirs [OF sd cs(4)] l(1) have l4: "locate (note_path w nm) w4 = Inr loc"
    by simp
  have "file_content (note_path w nm) w4 \<noteq> None"
    by (simp add: file_content_at [OF l4 l(2)] cs(3))
  moreover have "can_write (note_path w nm) w4"
    by (rule can_write_keeps [OF sd cs(4,6) cw])
  ultimately have new: "on_disk w4 ?n"
    using p by (simp add: on_disk_def note_path_eq [OF cs(5)])
  from 1 2 old new have "mirrored w4" by (simp add: mirrored_def cs(2))
  from reset_screen_returns [OF this] show ?thesis
    unfolding cs(1) cs(7) .
qed

lemma unique_names_nth:
  assumes "unique_names w" and "k < length (notes w)" and "j < length (notes w)" and "k \<noteq> j"
  shows "name (notes w ! k) \<noteq> name (notes w ! j)"
proof
  assume "name (notes w ! k) = name (notes w ! j)"
  with assms(2,3) have "map (\<lambda>n. lower (name n)) (notes w) ! k =
                        map (\<lambda>n. lower (name n)) (notes w) ! j" by simp
  moreover from assms(1) have "distinct (map (\<lambda>n. lower (name n)) (notes w))"
    by (simp add: unique_names_def)
  ultimately show False
    using nth_eq_iff_index_eq [of "map (\<lambda>n. lower (name n)) (notes w)" k j] assms(2-4) by simp
qed

lemma rename_note_returns:
  assumes m: "mirrored w" and p: "plain_name new" and cw: "can_write (note_path w new) w"
  shows "\<exists>w'. rename_note old new w = (Done (), w') \<and> mirrored w' \<and> editor w' = editor w"
proof (cases "lower old \<noteq> lower new \<and> note_exists new w")
  case True
  with mirrored_print [OF m] show ?thesis by (simp add: rename_note_def)
next
  case nc: False
  show ?thesis
  proof (cases "get_note old w")
    case None
    have "rename_note old new w = (Done (), print ''Note not found.'' (snd (reset_screen w)))"
      unfolding rename_note_def if_not_P [OF nc] None option.case
      by (rule reset_then_print [OF m])
    with mirrored_print [OF mirrored_reset_screen [OF m]] show ?thesis by simp
  next
    case (Some i)
    then have i: "i < length (notes w)" and li: "lower (name (notes w ! i)) = lower old"
      by (simp_all add: get_note_def first_match_Some)
    from m have ip: "in_place w" and u: "unique_names w" by (simp_all add: mirrored_def)
    let ?new = "path_join (notes_folder w) (txt_name new)"
    let ?w1 = "w\<lparr>notes := (notes w)[i := (notes w ! i)\<lparr>name := new, filepath := ?new\<rparr>]\<rparr>"
    define v where "v = snd (Note_save i (snd (os_rename (filepath (notes w ! i)) ?new ?w1)))"
    let ?n = "(notes w ! i)\<lparr>name := new, filepath := ?new, edited_time := clock w\<rparr>"
    note np = note_path_plain [OF p, of w]
    from on_diskD [OF ip mirrored_nth [OF m i]] obtain D c0 where
      D: "dir_loc (notes_folder w) w = Some D"
      and ls: "locate (filepath (notes w ! i)) w = Inr (D @ [txt_name (name (notes w ! i))])"
      and f0: "files w (D @ [txt_name (name (notes w ! i))]) = Some (File c0)"
      and r0: "refuses w (D @ [txt_name (name (notes w ! i))]) = None"
      by metis
    from cw obtain ld where ld: "locate (note_path w new) w = Inr ld" "ld \<noteq> []"
      "files w ld \<noteq> Some Dir" "refuses w ld = None"
      by (rule can_writeD)
    from ld(1) D have ldD: "ld = D @ [txt_name new]"
      by (simp add: locate_note_path [OF p])
    let ?ls = "D @ [txt_name (name (notes w ! i))]"
    have lsn: "?ls \<noteq> []" and nd: "File c0 \<noteq> Dir" by simp_all
    note r = rename_note_found [OF nc Some ls lsn f0 nd r0 ld(1) [folded np] ld(2-4),
                                   folded v_def]
    have nv: "notes v = (notes w)[i := ?n]" by (rule r(2))
    have fv: "files v = ((files w)(?ls := None))(ld \<mapsto> File (content (notes w ! i)))"
      by (rule r(3))
    have sd: "same_dirs (files w) (files v)"
      unfolding fv using f0 ld(3) by (auto simp: same_dirs_def)
    have 1: "in_place v" by (rule in_place_keeps [OF sd r(7,8) ip])
    from unique_names_rename [OF u, of old new] have 2: "unique_names v"
      by (simp add: unique_names_def r(4) nv)
    have 3: "list_all (on_disk v) (notes v)"
      unfolding list_all_length
    proof (intro allI impI)
      fix k assume "k < length (notes v)"
      then have k: "k < length (notes w)" by (simp add: nv)
      show "on_disk v (notes v ! k)"
      proof (cases "k = i")
        case True
        from locate_same_dirs [OF sd r(7)] ld(1)
        have l': "locate (note_path w new) v = Inr ld" by simp
        have "file_content (note_path w new) v \<noteq> None"
          by (simp add: file_content_at [OF l' ld(2)] fv)
        moreover have "can_write (note_path w new) v"
          by (rule can_write_keeps [OF sd r(7,9) cw])
        ultimately have "on_disk v ?n"
          using p by (simp add: on_disk_def np note_path_eq [OF r(8)])
        with True i show ?thesis by (simp add: nv)
      next
        case False
        let ?m = "notes w ! k"
        note ok = mirrored_nth [OF m k]
        from on_diskD [OF ip ok] D obtain c1 where
          lk: "locate (filepath ?m) w = Inr (D @ [txt_name (name ?m)])"
          and fk: "files w (D @ [txt_name (name ?m)]) = Some (File c1)"
          by (metis option.inject)
        from unique_names_nth [OF u k i False]
        have dif: "D @ [txt_name (name ?m)] \<noteq> ?ls" by (simp add: txt_name_inj)
        from ok have pk: "plain_name (name ?m)" and fpk: "filepath ?m = note_path w (name ?m)"
          and ck: "can_write (filepath ?m) w"
          unfolding on_disk_def by blast+
        from locate_same_dirs [OF sd r(7)] lk
        have l': "locate (filepath ?m) v = Inr (D @ [txt_name (name ?m)])" by simp
        have "file_content (filepath ?m) v \<noteq> None"
          unfolding file_content_Some using l' fk dif by (auto simp: fv)
        moreover have "can_write (filepath ?m) v"
          by (rule can_write_keeps [OF sd r(7,9) ck])
        ultimately have "on_disk v ?m"
          using pk fpk by (simp add: on_disk_def note_path_eq [OF r(8)])
        with False show ?thesis by (simp add: nv)
      qed
    qed
    from 1 2 3 have mv: "mirrored v" by (simp add: mirrored_def)
    have "rename_note old new w =
            (Done (), print ''Note renamed successfully.'' (snd (reset_screen v)))"
      unfolding r(1) by (rule reset_then_print [OF mv])
    with mirrored_print [OF mirrored_reset_screen [OF mv]] r(10) show ?thesis by simp
  qed
qed

lemma delete_note_returns:
  assumes m: "mirrored w" and s: "stdin w \<noteq> []"
    and n: "\<not> (get_note nm w \<noteq> None \<and> lower (hd (stdin w)) = ''yes'')"
  shows "\<exists>w'. delete_note nm w = (Done False, w') \<and> mirrored w' \<and> editor w' = editor w"
proof (cases "get_note nm w")
  case None
  obtain r w1 where r: "reset_screen w = (r, w1)" by force
  with reset_screen_returns [OF m] have "r = Done ()" "mirrored w1" "editor w1 = editor w"
    by auto
  with None r show ?thesis by (simp add: delete_note_def)
next
  case (Some i)
  from s obtain l ls where l: "stdin w = l # ls" by (cases "stdin w") auto
  with n Some have "lower l \<noteq> ''yes''" by simp
  with Some l have "delete_note nm w =
    (Done False, print ''Deletion cancelled.'' (w\<lparr>stdout := stdout w @ [Prompt (delete_prompt nm)],
                                                  stdin := ls\<rparr>))"
    by (simp add: delete_note_def input_def emit_def)
  moreover have "mirrored (print ''Deletion cancelled.''
                   (w\<lparr>stdout := stdout w @ [Prompt (delete_prompt nm)], stdin := ls\<rparr>))"
    by (rule mirrored_mono [OF m]) simp_all
  ultimately show ?thesis by simp
qed

lemma Note_edit_returns:
  assumes m: "mirrored w" and k: "editor_keeps_files w" and i: "i < length (notes w)"
  shows "\<exists>w1. Note_edit i w = (Done (), w1) \<and>
              map name (notes w1) = map name (notes w) \<and>
              map filepath (notes w1) = map filepath (notes w) \<and>
              keeps_text (files w) (files w1) \<and>
              cwd w1 = cwd w \<and> script_dir w1 = script_dir w \<and> refuses w1 = refuses w \<and>
              editor w1 = editor w"
proof -
  let ?p = "filepath (notes w ! i)"
  from m have ip: "in_place w" by (simp add: mirrored_def)
  from on_diskD [OF ip mirrored_nth [OF m i]] obtain D c0 where
    ls: "locate ?p w = Inr (D @ [txt_name (name (notes w ! i))])"
    and f0: "files w (D @ [txt_name (name (notes w ! i))]) = Some (File c0)"
    by metis
  let ?l = "D @ [txt_name (name (notes w ! i))]"
  from ls f0 have ex: "os_path_exists ?p w" by (simp add: os_path_exists_def node_at_def)
  then have e1: "Note_edit i w =
     (case Note_edit_try i w of
        (Raised e, w2) \<Rightarrow>
          (if is_Exception e then (Done (), print (''An error occurred: '' @ str_exn e) w2)
           else (Raised e, w2))
      | (Done u, w2) \<Rightarrow> (Done u, w2))"
    by (simp add: Note_edit_def)
  from k have kk: "case editor w ?p (files w) of Inl e \<Rightarrow> is_Exception e
                   | Inr fs' \<Rightarrow> keeps_text (files w) fs'"
    unfolding editor_keeps_files_def by blast
  show ?thesis
  proof (cases "editor w ?p (files w)")
    case (Inl e)
    with kk have "is_Exception e" by simp
    with Inl show ?thesis by (simp add: e1 Note_edit_try_def)
  next
    case (Inr fs)
    with kk have d: "keeps_text (files w) fs" by simp
    from d f0 obtain c where c: "fs ?l = Some (File c)"
      unfolding keeps_text_def by blast
    let ?w' = "w\<lparr>files := fs\<rparr>"
    have "same_dirs (files w) (files ?w')" using d by (simp add: keeps_text_def)
    from locate_same_dirs [OF this] ls have l': "locate ?p ?w' = Inr ?l" by simp
    show ?thesis
    proof (cases "stdin w")
      case Nil
      with Inr d show ?thesis
        by (simp add: e1 Note_edit_try_def input_def emit_def print_def)
    next
      case (Cons l ls)
      have rd: "read_file ?p (w\<lparr>files := fs\<rparr>) = Done (universal_newlines c)"
        by (simp add: read_file_def l' node_at_def c)
      from Cons Inr d show ?thesis
        by (simp add: e1 Note_edit_try_def input_def emit_def print_def Note_load_content_def
            rd map_update_same)
    qed
  qed
qed

lemma CommandProcessor_edit_returns:
  assumes m: "mirrored w" and k: "editor_keeps_files w"
  shows "\<exists>w'. CommandProcessor_edit args w = (Done (), w') \<and> mirrored w' \<and> editor w' = editor w"
proof (cases "length args > 0")
  case False
  with mirrored_print [OF m] show ?thesis by (simp add: CommandProcessor_edit_def)
next
  case True
  show ?thesis
  proof (cases "get_note (join_underscore args) w")
    case None
    with True mirrored_print [OF m] show ?thesis by (simp add: CommandProcessor_edit_def)
  next
    case (Some i)
    then have i: "i < length (notes w)" by (simp add: get_note_def first_match_Some)
    from Note_edit_returns [OF m k i] obtain w1 where
      e: "Note_edit i w = (Done (), w1)" and
      n: "map name (notes w1) = map name (notes w)" and
      f: "map filepath (notes w1) = map filepath (notes w)" and
      d: "keeps_text (files w) (files w1)" and
      c: "cwd w1 = cwd w" and sd: "script_dir w1 = script_dir w" and
      rf: "refuses w1 = refuses w" and ed: "editor w1 = editor w"
      by blast
    have m1: "mirrored w1" by (rule mirrored_mono [OF m n f d c sd rf])
    from n have "length (notes w1) = length (notes w)" by (rule map_eq_imp_length_eq)
    with i have i1: "i < length (notes w1)" by simp
    from mirrored_nth [OF m1 i1] have "can_write (filepath (notes w1 ! i)) w1"
      unfolding on_disk_def by blast
    then obtain loc where l: "locate (filepath (notes w1 ! i)) w1 = Inr loc" "loc \<noteq> []"
      "files w1 loc \<noteq> Some Dir" "refuses w1 loc = None"
      by (rule can_writeD)
    note sv = Note_save_Done [OF l]
    obtain r2 w2 where p: "Note_save i w1 = (r2, w2)" by force
    with sv(1,2) have r2: "r2 = Done ()"
      and f2: "files w2 = (files w1)(loc \<mapsto> File (content (notes w1 ! i)))" by simp_all
    have k2: "keeps_text (files w1) (files w2)"
      unfolding f2 using l(3) by (rule keeps_text_write [of "files w1" loc])
    have "mirrored w2"
      by (rule mirrored_mono [OF m1 _ _ k2])
         (use Note_save_names [of i w1] Note_save_fields [of i w1] p in simp_all)
    from reset_screen_returns [OF this] obtain w' where
      "reset_screen w2 = (Done (), w')" "mirrored w'" "editor w' = editor w2" by blast
    moreover from Note_save_fields(5) [of i w1] p ed have "editor w2 = editor w" by simp
    ultimately show ?thesis
      using True Some e p r2 by (simp add: CommandProcessor_edit_def)
  qed
qed

lemma commands_eq:
  "commands k =
     (if k = ''home'' then Some CommandProcessor_home
      else if k = ''create'' then Some CommandProcessor_create
      else if k = ''edit'' then Some CommandProcessor_edit
      else if k = ''delete'' then Some CommandProcessor_delete
      else if k = ''rename'' then Some CommandProcessor_rename
      else if k = ''help'' then Some CommandProcessor_help
      else if k = ''exit'' \<or> k = ''quit'' \<or> k = ''q'' then Some CommandProcessor_exit
      else None)"
  by (simp add: commands_def)




text \<open>
  Nor does it hold for a \<open>create\<close> whose name is not plain: the write of the file
  raises, and nothing catches it. And a no-break space after \<open>q\<close> is whitespace to
  \<open>str.split\<close>, so that line is an exit command.
\<close>

lemma process_create_no_directory:
  "fst (process ''create a/b'' (example_world [] [''buy milk''])) =
     Raised (FileNotFoundError ''/home/user/notes/a/b.txt'')"
  by (simp add: process_def split_def is_space_def commands_eq CommandProcessor_create_def
      create_note_def note_exists_def input_def emit_def Note_init_def Note_save_def
      write_file_def datetime_now_def lower_eval example_eval)

lemma process_exit_no_break_space:
  "is_exit (''q'' @ [CHR 0xA0]) \<and> process (''q'' @ [CHR 0xA0]) w = (Raised SystemExit, w)"
  by (simp add: is_exit_def process_def split_def is_space_def commands_eq
      CommandProcessor_exit_def lower_eval)

text \<open>The same command typed at the prompt ends the loop in its first pass.\<close>

lemma main_loop_missing_file:
  "fst (main_loop 1 ((example_world [example_note ''x'' ''hello''] [''home''])
                       \<lparr>files := Map.empty\<rparr>)) =
     Some (FileNotFoundError (display_path ''x''))"
  by code_simp

section \<open>A session\<close>

text \<open>
  The session of \<open>scenario\<close> runs its four commands without an exception. The tables
  printed are: the empty table at start, one row named \<open>shopping list\<close> with preview
  \<open>eggs\<close> after the creation and at \<open>home\<close>, and one row named \<open>groceries\<close> after
  the renaming and at \<open>home\<close>.
\<close>

lemma scenario_run:
  "fst (main [] 4 ((example_disk [])\<lparr>stdin := scenario\<rparr>)) = None \<and>
   filter (\<lambda>e. case e of Table _ \<Rightarrow> True | _ \<Rightarrow> False)
     (stdout (snd (main [] 4 ((example_disk [])\<lparr>stdin := scenario\<rparr>)))) =
     [Table [], Table [(1, ''shopping list'', 2, ''eggs'')],
      Table [(1, ''shopping list'', 2, ''eggs'')],
      Table [(1, ''groceries'', 3, ''eggs'')], Table [(1, ''groceries'', 3, ''eggs'')]]"
  by code_simp

end
